theory Spec2Isabelle
  imports Main
begin

section \<open>Data model of the schema migrations\<close>

text \<open>
  Identifiers are \<^verbatim>\<open>uuid\<close> values. The schema compares them with \<^verbatim>\<open><\<close> and the
  pages sort their canonical lower-case text with \<^verbatim>\<open>Array.prototype.sort\<close>; both orders
  agree on canonical uuid text, so one linear order stands for both. Text columns and
  JavaScript strings are sequences of UTF-16 code units.
\<close>

type_synonym uuid = nat
type_synonym jsstring = "nat list"
type_synonym timestamp = nat

datatype status = Pending | Accepted | Rejected

text \<open>Table \<^verbatim>\<open>public.follows\<close>.\<close>

record follow =
  fid :: uuid
  follower_id :: uuid
  following_id :: uuid
  status :: status

text \<open>Table \<^verbatim>\<open>public.chats\<close>.\<close>

record chat =
  cid :: uuid
  user1_id :: uuid
  user2_id :: uuid

text \<open>Table \<^verbatim>\<open>public.messages\<close>.\<close>

record message =
  mid :: uuid
  chat_id :: uuid
  sender_id :: uuid
  content :: jsstring
  media_url :: "jsstring option"
  created_at :: timestamp

text \<open>Table \<^verbatim>\<open>public.message_reactions\<close>.\<close>

record reaction =
  rid :: uuid
  message_id :: uuid
  user_id :: uuid
  emoji :: jsstring

text \<open>
  The database: one list of rows per table, in insertion order. Of \<^verbatim>\<open>public.profiles\<close>
  only the primary key is kept, since the operations below read nothing else of it.
\<close>

record db =
  profiles :: "uuid list"
  follows :: "follow list"
  chats :: "chat list"
  messages :: "message list"
  message_reactions :: "reaction list"

definition empty_db :: db where
  "empty_db = \<lparr>profiles = [], follows = [], chats = [], messages = [], message_reactions = []\<rparr>"

text \<open>Errors a request can come back with.\<close>

datatype api_error =
    PGRST116
  | RlsViolation
  | CheckViolation
  | UniqueViolation
  | ForeignKeyViolation
  | StorageError

section \<open>Statements, with their constraints and row-level-security policies\<close>

text \<open>
  \<^verbatim>\<open>auth.uid()\<close> is \<open>None\<close> for an unauthenticated request. A policy is checked before
  the table constraints, the foreign keys last. The value of \<^verbatim>\<open>gen_random_uuid()\<close> is
  part of the inserted row; a collision is a primary-key violation.
\<close>

definition is_participant :: "uuid option \<Rightarrow> chat \<Rightarrow> bool" where
  "is_participant auth c \<longleftrightarrow> auth = Some (user1_id c) \<or> auth = Some (user2_id c)"

text \<open>
  Trigger \<^verbatim>\<open>on_auth_user_created\<close>: a new identity gets its profile row; an identifier
  already in use is a primary-key violation and the signup fails.
\<close>

definition handle_new_user :: "db \<Rightarrow> uuid \<Rightarrow> api_error + db" where
  "handle_new_user d new_id =
     (if new_id \<in> set (profiles d) then Inl UniqueViolation
      else Inr (d\<lparr>profiles := profiles d @ [new_id]\<rparr>))"

text \<open>Policy "Users can create follow requests"; \<^verbatim>\<open>UNIQUE(follower_id, following_id)\<close>.\<close>

definition insert_follow :: "db \<Rightarrow> uuid option \<Rightarrow> follow \<Rightarrow> api_error + db" where
  "insert_follow d auth row =
     (if auth \<noteq> Some (follower_id row) then Inl RlsViolation
      else if \<exists>f\<in>set (follows d). fid f = fid row then Inl UniqueViolation
      else if \<exists>f\<in>set (follows d).
                follower_id f = follower_id row \<and> following_id f = following_id row
        then Inl UniqueViolation
      else if follower_id row \<notin> set (profiles d) \<or> following_id row \<notin> set (profiles d)
        then Inl ForeignKeyViolation
      else Inr (d\<lparr>follows := follows d @ [row]\<rparr>))"

text \<open>
  \<^verbatim>\<open>update({status}).eq('id', requestId)\<close> under the policy "Users can update follow
  requests they received": a row the policy hides is skipped without an error.
\<close>

definition update_follow_status :: "db \<Rightarrow> uuid option \<Rightarrow> uuid \<Rightarrow> status \<Rightarrow> db" where
  "update_follow_status d auth requestId st =
     d\<lparr>follows :=
         map (\<lambda>f. if fid f = requestId \<and> auth = Some (following_id f)
                   then f\<lparr>status := st\<rparr> else f)
             (follows d)\<rparr>"

text \<open>Policy "Users can view their own chats", with the two equality filters of the pages.\<close>

definition select_chats :: "db \<Rightarrow> uuid option \<Rightarrow> uuid \<Rightarrow> uuid \<Rightarrow> chat list" where
  "select_chats d auth u1 u2 =
     filter (\<lambda>c. is_participant auth c \<and> user1_id c = u1 \<and> user2_id c = u2) (chats d)"

text \<open>
  Policy "Users can create chats"; \<^verbatim>\<open>CHECK (user1_id < user2_id)\<close>;
  \<^verbatim>\<open>UNIQUE(user1_id, user2_id)\<close>.
\<close>

definition insert_chat :: "db \<Rightarrow> uuid option \<Rightarrow> chat \<Rightarrow> api_error + db" where
  "insert_chat d auth row =
     (if \<not> is_participant auth row then Inl RlsViolation
      else if \<not> user1_id row < user2_id row then Inl CheckViolation
      else if \<exists>c\<in>set (chats d). cid c = cid row then Inl UniqueViolation
      else if \<exists>c\<in>set (chats d). user1_id c = user1_id row \<and> user2_id c = user2_id row
        then Inl UniqueViolation
      else if user1_id row \<notin> set (profiles d) \<or> user2_id row \<notin> set (profiles d)
        then Inl ForeignKeyViolation
      else Inr (d\<lparr>chats := chats d @ [row]\<rparr>))"

text \<open>Policy "Users can create messages in their chats".\<close>

definition may_create_message :: "db \<Rightarrow> uuid option \<Rightarrow> message \<Rightarrow> bool" where
  "may_create_message d auth row \<longleftrightarrow>
     auth = Some (sender_id row) \<and>
     (\<exists>c\<in>set (chats d). cid c = chat_id row \<and> is_participant auth c)"

definition insert_message :: "db \<Rightarrow> uuid option \<Rightarrow> message \<Rightarrow> api_error + db" where
  "insert_message d auth row =
     (if \<not> may_create_message d auth row then Inl RlsViolation
      else if \<exists>m\<in>set (messages d). mid m = mid row then Inl UniqueViolation
      else if sender_id row \<notin> set (profiles d) then Inl ForeignKeyViolation
      else Inr (d\<lparr>messages := messages d @ [row]\<rparr>))"

text \<open>
  The condition shared by the policies "Users can view reactions in their chats" and
  "Users can add reactions to messages in their chats": the message lies in a chat of the
  caller.
\<close>

definition in_own_chat :: "db \<Rightarrow> uuid option \<Rightarrow> uuid \<Rightarrow> bool" where
  "in_own_chat d auth m_id \<longleftrightarrow>
     (\<exists>m\<in>set (messages d). mid m = m_id \<and>
        (\<exists>c\<in>set (chats d). cid c = chat_id m \<and> is_participant auth c))"

text \<open>Constraint \<^verbatim>\<open>unique_user_message_emoji\<close>.\<close>

definition insert_reaction :: "db \<Rightarrow> uuid option \<Rightarrow> reaction \<Rightarrow> api_error + db" where
  "insert_reaction d auth row =
     (if \<not> (auth = Some (user_id row) \<and> in_own_chat d auth (message_id row))
        then Inl RlsViolation
      else if \<exists>r\<in>set (message_reactions d). rid r = rid row then Inl UniqueViolation
      else if \<exists>r\<in>set (message_reactions d).
                message_id r = message_id row \<and> user_id r = user_id row \<and> emoji r = emoji row
        then Inl UniqueViolation
      else if user_id row \<notin> set (profiles d) then Inl ForeignKeyViolation
      else Inr (d\<lparr>message_reactions := message_reactions d @ [row]\<rparr>))"

text \<open>
  \<^verbatim>\<open>delete().eq('id', ...)\<close> under the policy "Users can delete their own reactions";
  the filter reads the row, so the view policy applies as well. A hidden row is skipped
  without an error.
\<close>

definition delete_reaction :: "db \<Rightarrow> uuid option \<Rightarrow> uuid \<Rightarrow> db" where
  "delete_reaction d auth reactionId =
     d\<lparr>message_reactions :=
         filter (\<lambda>r. \<not> (rid r = reactionId \<and> auth = Some (user_id r) \<and>
                          in_own_chat d auth (message_id r)))
                (message_reactions d)\<rparr>"

text \<open>
  The writing statements the pages issue, each by an arbitrary caller. A concurrent run of
  several clients is a sequence of such statements in the order the database commits
  them; a failed statement leaves the database as it was.
\<close>

datatype stmt =
    Signup uuid
  | InsertFollow "uuid option" follow
  | UpdateFollowStatus "uuid option" uuid status
  | InsertChat "uuid option" chat
  | InsertMessage "uuid option" message
  | InsertReaction "uuid option" reaction
  | DeleteReaction "uuid option" uuid

definition keep :: "db \<Rightarrow> api_error + db \<Rightarrow> db" where
  "keep d r = (case r of Inl e \<Rightarrow> d | Inr d' \<Rightarrow> d')"

fun exec_stmt :: "db \<Rightarrow> stmt \<Rightarrow> db" where
  "exec_stmt d (Signup u) = keep d (handle_new_user d u)"
| "exec_stmt d (InsertFollow auth row) = keep d (insert_follow d auth row)"
| "exec_stmt d (UpdateFollowStatus auth i st) = update_follow_status d auth i st"
| "exec_stmt d (InsertChat auth row) = keep d (insert_chat d auth row)"
| "exec_stmt d (InsertMessage auth row) = keep d (insert_message d auth row)"
| "exec_stmt d (InsertReaction auth row) = keep d (insert_reaction d auth row)"
| "exec_stmt d (DeleteReaction auth i) = delete_reaction d auth i"

definition run_stmts :: "db \<Rightarrow> stmt list \<Rightarrow> db" where
  "run_stmts d ss = foldl exec_stmt d ss"

text \<open>
  Two clients at first contact: both users sign up, 1 follows 2, 2 accepts, and then
  both sides insert the chat row of the sorted pair, each having found none before.
\<close>

definition first_contact_race :: "stmt list" where
  "first_contact_race =
     [Signup 1, Signup 2,
      InsertFollow (Some 1) \<lparr>fid = 5, follower_id = 1, following_id = 2, status = Pending\<rparr>,
      UpdateFollowStatus (Some 2) 5 Accepted,
      InsertChat (Some 1) \<lparr>cid = 10, user1_id = 1, user2_id = 2\<rparr>,
      InsertChat (Some 2) \<lparr>cid = 11, user1_id = 1, user2_id = 2\<rparr>]"

text \<open>The rows of \<^verbatim>\<open>chats\<close> that lie between two users, in either order.\<close>

definition chats_between :: "db \<Rightarrow> uuid \<Rightarrow> uuid \<Rightarrow> chat list" where
  "chats_between d a b =
     filter (\<lambda>c. (user1_id c = a \<and> user2_id c = b) \<or> (user1_id c = b \<and> user2_id c = a))
            (chats d)"

text \<open>What the two constraints of \<^verbatim>\<open>chats\<close> maintain.\<close>

definition chats_inv :: "db \<Rightarrow> bool" where
  "chats_inv d \<longleftrightarrow>
     (\<forall>c\<in>set (chats d). user1_id c < user2_id c) \<and>
     distinct (map (\<lambda>c. (user1_id c, user2_id c)) (chats d))"

section \<open>The pages\<close>

text \<open>
  Each handler is a function of the database and of the page's React state; what it
  shows the user is collected in the page's list of toasts. The handlers below run for a
  signed-in user (their effects are guarded by \<^verbatim>\<open>if (user)\<close>), whose id is also the
  \<^verbatim>\<open>auth.uid()\<close> of the requests.
\<close>

datatype toast = toast_error string | toast_success string

text \<open>\<^verbatim>\<open>.single()\<close>: exactly one row, or the error PGRST116.\<close>

definition single :: "'a list \<Rightarrow> api_error + 'a" where
  "single rows = (case rows of [r] \<Rightarrow> Inr r | _ \<Rightarrow> Inl PGRST116)"

subsection \<open>Chat page: opening a chat\<close>

text \<open>
  The state of the Chat component. Its \<^verbatim>\<open>messages\<close> state is \<open>messages_state\<close> here,
  the name \<open>messages\<close> being the table's; \<open>js_file\<close> is what the page reads of a
  \<^verbatim>\<open>File\<close>. The keys of \<^verbatim>\<open>reactions\<close> are message ids, and \<open>None\<close> is the key
  \<^verbatim>\<open>"undefined"\<close> that a missing \<^verbatim>\<open>message_id\<close> gives.
\<close>

record js_file =
  file_name :: jsstring
  file_size :: nat

record chat_page =
  otherUser :: "uuid option"
  chatId :: "uuid option"
  messages_state :: "message list"
  newMessage :: jsstring
  loading :: bool
  sending :: bool
  canChat :: bool
  selectedFile :: "js_file option"
  uploading :: bool
  reactions :: "uuid option \<rightharpoonup> reaction list"
  showReactionPicker :: "uuid option"
  chat_toasts :: "toast list"

definition chat_page_init :: chat_page where
  "chat_page_init =
     \<lparr>otherUser = None, chatId = None, messages_state = [], newMessage = [], loading = True,
      sending = False, canChat = False, selectedFile = None, uploading = False,
      reactions = Map.empty, showReactionPicker = None, chat_toasts = []\<rparr>"

text \<open>
  The follow check of \<^verbatim>\<open>initializeChat\<close>: the accepted rows between the two users in
  either direction, under the policy "Users can view their follow requests".
\<close>

definition select_accepted_follows :: "db \<Rightarrow> uuid option \<Rightarrow> uuid \<Rightarrow> uuid \<Rightarrow> follow list" where
  "select_accepted_follows d auth a b =
     filter (\<lambda>f. (auth = Some (follower_id f) \<or> auth = Some (following_id f)) \<and>
                 ((follower_id f = a \<and> following_id f = b) \<or>
                  (follower_id f = b \<and> following_id f = a)) \<and>
                 status f = Accepted)
            (follows d)"

definition isConnected :: "db \<Rightarrow> uuid \<Rightarrow> uuid \<Rightarrow> bool" where
  "isConnected d user userId \<longleftrightarrow> select_accepted_follows d (Some user) user userId \<noteq> []"

text \<open>The \<^verbatim>\<open>catch\<close> and \<^verbatim>\<open>finally\<close> blocks of \<^verbatim>\<open>initializeChat\<close>.\<close>

definition failed_to_load :: "chat_page \<Rightarrow> chat_page" where
  "failed_to_load p =
     p\<lparr>chat_toasts := chat_toasts p @ [toast_error ''Failed to load chat''], loading := False\<rparr>"

text \<open>
  \<^verbatim>\<open>initializeChat\<close> awaits its reads and then, when no chat row was found, the insert.
  Statements of other clients can be committed while it waits, so it is split there: the
  first part runs the reads and either finishes or stops before the insert.
\<close>

datatype 'a progress = Done 'a | Await_insert 'a

definition initializeChat_reads :: "db \<Rightarrow> chat_page \<Rightarrow> uuid \<Rightarrow> uuid \<Rightarrow> chat_page progress" where
  "initializeChat_reads d p user userId =
     (case single (filter (\<lambda>i. i = userId) (profiles d)) of
        Inl profileError \<Rightarrow> Done (failed_to_load p)
      | Inr profile \<Rightarrow>
          (let p1 = p\<lparr>otherUser := Some profile, canChat := isConnected d user userId\<rparr> in
           if \<not> isConnected d user userId then
             Done (p1\<lparr>chat_toasts := chat_toasts p1 @
                         [toast_error ''You need to be connected to chat with this user''],
                      loading := False\<rparr>)
           else
             (let sortedIds = sort [user, userId] in
              case single (select_chats d (Some user) (sortedIds ! 0) (sortedIds ! 1)) of
                Inl chatError \<Rightarrow>
                  (if chatError = PGRST116 then Await_insert p1 else Done (failed_to_load p1))
              | Inr existingChat \<Rightarrow>
                  Done (p1\<lparr>chatId := Some (cid existingChat), loading := False\<rparr>))))"

definition initializeChat_create :: "db \<Rightarrow> chat_page \<Rightarrow> uuid \<Rightarrow> uuid \<Rightarrow> uuid \<Rightarrow> db \<times> chat_page" where
  "initializeChat_create d p user userId new_id =
     (let sortedIds = sort [user, userId] in
      case insert_chat d (Some user)
             \<lparr>cid = new_id, user1_id = sortedIds ! 0, user2_id = sortedIds ! 1\<rparr> of
        Inl createError \<Rightarrow> (d, failed_to_load p)
      | Inr d' \<Rightarrow> (d', p\<lparr>chatId := Some new_id, loading := False\<rparr>))"

text \<open>The whole handler with nothing committed in between.\<close>

definition initializeChat :: "db \<Rightarrow> chat_page \<Rightarrow> uuid \<Rightarrow> uuid \<Rightarrow> uuid \<Rightarrow> db \<times> chat_page" where
  "initializeChat d p user userId new_id =
     (case initializeChat_reads d p user userId of
        Done p' \<Rightarrow> (d, p')
      | Await_insert p' \<Rightarrow> initializeChat_create d p' user userId new_id)"

subsection \<open>Requests page\<close>

record follow_request =
  req_id :: uuid
  req_follower :: uuid

record requests_page =
  requests :: "follow_request list"
  requests_toasts :: "toast list"

text \<open>The content of the system message, as the source file spells it.\<close>

definition welcome_message :: jsstring where
  "welcome_message =
     [0xF0, 0x178, 0x17D, 0x2030] @
     map of_char
       '' Your follow request has been accepted! You are now connected and can start chatting.''"

text \<open>
  \<^verbatim>\<open>handleAccept\<close>, with nothing committed in between its statements. The status update
  is not undone when a later statement fails.
\<close>

definition handleAccept ::
  "db \<Rightarrow> requests_page \<Rightarrow> uuid \<Rightarrow> uuid \<Rightarrow> uuid \<Rightarrow> uuid \<Rightarrow> uuid \<Rightarrow> timestamp \<Rightarrow> db \<times> requests_page" where
  "handleAccept d p user requestId followerId new_chat_id new_message_id now =
     (let d1 = update_follow_status d (Some user) requestId Accepted;
          sortedIds = sort [user, followerId];
          failed = (\<lambda>d'. (d', p\<lparr>requests_toasts := requests_toasts p @
                                   [toast_error ''Failed to accept request'']\<rparr>));
          send = (\<lambda>d' chatId.
            case insert_message d' (Some user)
                   \<lparr>mid = new_message_id, chat_id = chatId, sender_id = user,
                    content = welcome_message, media_url = None, created_at = now\<rparr> of
              Inl messageError \<Rightarrow> failed d'
            | Inr d'' \<Rightarrow>
                (d'', p\<lparr>requests := filter (\<lambda>r. req_id r \<noteq> requestId) (requests p),
                        requests_toasts := requests_toasts p @
                          [toast_success ''Follow request accepted! You can now chat.'']\<rparr>))
      in case single (select_chats d1 (Some user) (sortedIds ! 0) (sortedIds ! 1)) of
           Inr existingChat \<Rightarrow> send d1 (cid existingChat)
         | Inl _ \<Rightarrow>
             (case insert_chat d1 (Some user)
                     \<lparr>cid = new_chat_id, user1_id = sortedIds ! 0, user2_id = sortedIds ! 1\<rparr> of
                Inl chatError \<Rightarrow> failed d1
              | Inr d2 \<Rightarrow> send d2 new_chat_id))"

definition handleReject :: "db \<Rightarrow> requests_page \<Rightarrow> uuid \<Rightarrow> uuid \<Rightarrow> db \<times> requests_page" where
  "handleReject d p user requestId =
     (update_follow_status d (Some user) requestId Rejected,
      p\<lparr>requests := filter (\<lambda>r. req_id r \<noteq> requestId) (requests p),
        requests_toasts := requests_toasts p @ [toast_success ''Follow request rejected'']\<rparr>)"

subsection \<open>Discover page\<close>

text \<open>
  \<^verbatim>\<open>followStatus\<close> maps a profile id to the status of the user's own request to it; a
  missing key reads as \<^verbatim>\<open>'none'\<close>.
\<close>

record discover_page =
  followStatus :: "uuid \<rightharpoonup> status"
  discover_toasts :: "toast list"

definition fetchFollowStatus :: "db \<Rightarrow> discover_page \<Rightarrow> uuid \<Rightarrow> discover_page" where
  "fetchFollowStatus d p user =
     (let data = filter (\<lambda>f. (user = follower_id f \<or> user = following_id f) \<and>
                              follower_id f = user)
                        (follows d)
      in p\<lparr>followStatus :=
             foldl (\<lambda>statusMap f. statusMap(following_id f \<mapsto> status f)) Map.empty data\<rparr>)"

definition canMessage :: "discover_page \<Rightarrow> uuid \<Rightarrow> bool" where
  "canMessage p profile_id \<longleftrightarrow>
     (case followStatus p profile_id of None \<Rightarrow> False | Some st \<Rightarrow> st = Accepted)"

definition handleFollow :: "db \<Rightarrow> discover_page \<Rightarrow> uuid \<Rightarrow> uuid \<Rightarrow> uuid \<Rightarrow> db \<times> discover_page" where
  "handleFollow d p user profileId new_id =
     (case insert_follow d (Some user)
             \<lparr>fid = new_id, follower_id = user, following_id = profileId, status = Pending\<rparr> of
        Inl error \<Rightarrow>
          (d, p\<lparr>discover_toasts := discover_toasts p @
                  [toast_error ''Failed to send follow request'']\<rparr>)
      | Inr d' \<Rightarrow>
          (d', p\<lparr>followStatus := (followStatus p)(profileId \<mapsto> Pending),
                 discover_toasts := discover_toasts p @ [toast_success ''Follow request sent!'']\<rparr>))"

subsection \<open>Chat page: the message view\<close>

text \<open>
  Policy "Users can view messages in their chats", with the filter on the chat. The bulk
  load of \<^verbatim>\<open>subscribeToMessages\<close> orders these rows by ascending \<^verbatim>\<open>created_at\<close>
  and replaces the view with them. The page calls it once \<^verbatim>\<open>chatId\<close> is set.
\<close>

definition visible_messages :: "db \<Rightarrow> uuid option \<Rightarrow> uuid \<Rightarrow> message list" where
  "visible_messages d auth chat =
     filter (\<lambda>m. (\<exists>c\<in>set (chats d). cid c = chat_id m \<and> is_participant auth c) \<and>
                 chat_id m = chat)
            (messages d)"

definition select_messages :: "db \<Rightarrow> uuid option \<Rightarrow> uuid \<Rightarrow> message list" where
  "select_messages d auth chat = sort_key created_at (visible_messages d auth chat)"

definition subscribeToMessages :: "db \<Rightarrow> chat_page \<Rightarrow> uuid \<Rightarrow> chat_page" where
  "subscribeToMessages d p user =
     (case chatId p of
        None \<Rightarrow> p
      | Some chat \<Rightarrow> p\<lparr>messages_state := select_messages d (Some user) chat\<rparr>)"

text \<open>The callback of the INSERT subscription, applied to the row an event carries.\<close>

definition on_message_insert :: "chat_page \<Rightarrow> message \<Rightarrow> chat_page" where
  "on_message_insert p payload_new = p\<lparr>messages_state := messages_state p @ [payload_new]\<rparr>"

subsection \<open>Chat page: sending\<close>

text \<open>\<^verbatim>\<open>handleFileSelect\<close>: a file of more than 50 MB is refused and not selected.\<close>

definition handleFileSelect :: "chat_page \<Rightarrow> js_file option \<Rightarrow> chat_page" where
  "handleFileSelect p file =
     (case file of
        None \<Rightarrow> p
      | Some f \<Rightarrow>
          if file_size f > 50 * 1024 * 1024
          then p\<lparr>chat_toasts := chat_toasts p @ [toast_error ''File must be less than 50MB'']\<rparr>
          else p\<lparr>selectedFile := Some f\<rparr>)"

text \<open>\<^verbatim>\<open>String.prototype.trim\<close>: white space and line terminators, by code unit.\<close>

definition is_whitespace :: "nat \<Rightarrow> bool" where
  "is_whitespace c \<longleftrightarrow>
     c \<in> {0x9, 0xA, 0xB, 0xC, 0xD, 0x20, 0xA0, 0x1680, 0x2028, 0x2029, 0x202F, 0x205F,
          0x3000, 0xFEFF} \<or> (0x2000 \<le> c \<and> c \<le> 0x200A)"

definition trim :: "jsstring \<Rightarrow> jsstring" where
  "trim s = rev (dropWhile is_whitespace (rev (dropWhile is_whitespace s)))"

text \<open>The requests a handler sends, in order.\<close>

datatype net_call = Storage_upload | Messages_insert

text \<open>
  \<^verbatim>\<open>handleSendMessage\<close>. The storage service is outside the repository: \<open>upload\<close> is
  what the upload of the selected file comes back with, the public URL of the stored file
  when it succeeds.
\<close>

definition handleSendMessage ::
  "db \<Rightarrow> chat_page \<Rightarrow> uuid \<Rightarrow> api_error + jsstring \<Rightarrow> uuid \<Rightarrow> timestamp \<Rightarrow>
   db \<times> chat_page \<times> net_call list" where
  "handleSendMessage d p user upload new_id now =
     (case chatId p of
        None \<Rightarrow> (d, p, [])
      | Some chat \<Rightarrow>
          if (trim (newMessage p) = [] \<and> selectedFile p = None) \<or> sending p then (d, p, [])
          else
            (let failed = (\<lambda>calls.
                   (d, p\<lparr>chat_toasts := chat_toasts p @ [toast_error ''Failed to send message''],
                         sending := False, uploading := False\<rparr>, calls));
                 insert = (\<lambda>mediaUrl calls.
                   case insert_message d (Some user)
                          \<lparr>mid = new_id, chat_id = chat, sender_id = user,
                           content = (if trim (newMessage p) \<noteq> [] then trim (newMessage p)
                                      else (case selectedFile p of
                                              Some f \<Rightarrow> file_name f | None \<Rightarrow> [])),
                           media_url = mediaUrl, created_at = now\<rparr> of
                     Inl error \<Rightarrow> failed (calls @ [Messages_insert])
                   | Inr d' \<Rightarrow>
                       (d', p\<lparr>newMessage := [], selectedFile := None,
                              sending := False, uploading := False\<rparr>,
                        calls @ [Messages_insert]))
             in case selectedFile p of
                  None \<Rightarrow> insert None []
                | Some f \<Rightarrow>
                    (case upload of
                       Inl uploadError \<Rightarrow> failed [Storage_upload]
                     | Inr publicUrl \<Rightarrow> insert (Some publicUrl) [Storage_upload])))"

subsection \<open>Chat page: reactions\<close>

text \<open>\<^verbatim>\<open>reactions[messageId] || []\<close>.\<close>

definition reactions_of :: "chat_page \<Rightarrow> uuid \<Rightarrow> reaction list" where
  "reactions_of p messageId =
     (case reactions p (Some messageId) of None \<Rightarrow> [] | Some rs \<Rightarrow> rs)"

text \<open>
  \<^verbatim>\<open>handleReaction\<close> decides from the page's own copy of the reactions. Without a user
  it returns at once.
\<close>

definition handleReaction ::
  "db \<Rightarrow> chat_page \<Rightarrow> uuid option \<Rightarrow> uuid \<Rightarrow> jsstring \<Rightarrow> uuid \<Rightarrow> db \<times> chat_page" where
  "handleReaction d p user messageId emoji' new_id =
     (case user of
        None \<Rightarrow> (d, p)
      | Some u \<Rightarrow>
          (case find (\<lambda>r. user_id r = u \<and> emoji r = emoji') (reactions_of p messageId) of
             Some existingReaction \<Rightarrow>
               (delete_reaction d (Some u) (rid existingReaction),
                p\<lparr>showReactionPicker := None\<rparr>)
           | None \<Rightarrow>
               (case insert_reaction d (Some u)
                       \<lparr>rid = new_id, message_id = messageId, user_id = u, emoji = emoji'\<rparr> of
                  Inl error \<Rightarrow>
                    (d, p\<lparr>chat_toasts := chat_toasts p @ [toast_error ''Failed to add reaction''],
                          showReactionPicker := None\<rparr>)
                | Inr d' \<Rightarrow> (d', p\<lparr>showReactionPicker := None\<rparr>))))"

text \<open>\<^verbatim>\<open>loadReactions\<close>: the visible reactions on the chat's messages, grouped by message.\<close>

definition loadReactions :: "db \<Rightarrow> chat_page \<Rightarrow> uuid \<Rightarrow> chat_page" where
  "loadReactions d p user =
     (case chatId p of
        None \<Rightarrow> p
      | Some chat \<Rightarrow>
          (let messageIds = map mid (visible_messages d (Some user) chat) in
           if messageIds = [] then p
           else
             (let data = filter (\<lambda>r. in_own_chat d (Some user) (message_id r) \<and>
                                      message_id r \<in> set messageIds)
                                (message_reactions d)
              in p\<lparr>reactions :=
                     foldl (\<lambda>reactionsByMessage r.
                              reactionsByMessage(Some (message_id r) \<mapsto>
                                (case reactionsByMessage (Some (message_id r)) of
                                   None \<Rightarrow> [] | Some rs \<Rightarrow> rs) @ [r]))
                           Map.empty data\<rparr>)))"

text \<open>
  The callbacks of \<^verbatim>\<open>subscribeToReactions\<close>. An INSERT event carries the new row.
\<close>

definition on_reaction_insert :: "chat_page \<Rightarrow> reaction \<Rightarrow> chat_page" where
  "on_reaction_insert p newReaction =
     p\<lparr>reactions := (reactions p)(Some (message_id newReaction) \<mapsto>
          reactions_of p (message_id newReaction) @ [newReaction])\<rparr>"

text \<open>
  What the DELETE callback reads of \<^verbatim>\<open>payload.old\<close>: the id, and the message id when
  the event carries one.
\<close>

record deleted_row =
  old_id :: uuid
  old_message_id :: "uuid option"

definition on_reaction_delete :: "chat_page \<Rightarrow> deleted_row \<Rightarrow> chat_page" where
  "on_reaction_delete p deletedReaction =
     p\<lparr>reactions := (reactions p)(old_message_id deletedReaction \<mapsto>
          filter (\<lambda>r. rid r \<noteq> old_id deletedReaction)
                 (case reactions p (old_message_id deletedReaction) of
                    None \<Rightarrow> [] | Some rs \<Rightarrow> rs))\<rparr>"

text \<open>
  No migration gives \<^verbatim>\<open>message_reactions\<close> another replica identity than the default,
  and row-level security is enabled on it, so the DELETE event of a row carries its
  primary key and nothing else.
\<close>

definition delete_event :: "reaction \<Rightarrow> deleted_row" where
  "delete_event r = \<lparr>old_id = rid r, old_message_id = None\<rparr>"

subsection \<open>Runs of the pages' operations\<close>

text \<open>
  Every handler that writes, called by any user with any page state and arguments; a run
  is a sequence of them.
\<close>

datatype client_op =
    Op_handleFollow discover_page uuid uuid uuid
  | Op_handleAccept requests_page uuid uuid uuid uuid uuid timestamp
  | Op_handleReject requests_page uuid uuid
  | Op_initializeChat chat_page uuid uuid uuid
  | Op_handleSendMessage chat_page uuid "api_error + jsstring" uuid timestamp
  | Op_handleReaction chat_page "uuid option" uuid jsstring uuid

fun exec_op :: "db \<Rightarrow> client_op \<Rightarrow> db" where
  "exec_op d (Op_handleFollow p user profileId new_id) =
     fst (handleFollow d p user profileId new_id)"
| "exec_op d (Op_handleAccept p user requestId followerId new_chat_id new_message_id now) =
     fst (handleAccept d p user requestId followerId new_chat_id new_message_id now)"
| "exec_op d (Op_handleReject p user requestId) = fst (handleReject d p user requestId)"
| "exec_op d (Op_initializeChat p user userId new_id) =
     fst (initializeChat d p user userId new_id)"
| "exec_op d (Op_handleSendMessage p user upload new_id now) =
     fst (handleSendMessage d p user upload new_id now)"
| "exec_op d (Op_handleReaction p user messageId emoji' new_id) =
     fst (handleReaction d p user messageId emoji' new_id)"

definition run_ops :: "db \<Rightarrow> client_op list \<Rightarrow> db" where
  "run_ops d ops = foldl exec_op d ops"

subsection \<open>Reading the tables\<close>

text \<open>The follow edge with a given id, and its status.\<close>

definition follow_by_id :: "db \<Rightarrow> uuid \<Rightarrow> follow option" where
  "follow_by_id d i = find (\<lambda>f. fid f = i) (follows d)"

definition status_of :: "db \<Rightarrow> uuid \<Rightarrow> status option" where
  "status_of d i = map_option status (follow_by_id d i)"

text \<open>The follow edges from one user to another.\<close>

definition edges_from_to :: "db \<Rightarrow> uuid \<Rightarrow> uuid \<Rightarrow> follow list" where
  "edges_from_to d a b = filter (\<lambda>f. follower_id f = a \<and> following_id f = b) (follows d)"

text \<open>The (message, user, emoji) facts stored.\<close>

definition reaction_triples :: "db \<Rightarrow> (uuid \<times> uuid \<times> jsstring) list" where
  "reaction_triples d = map (\<lambda>r. (message_id r, user_id r, emoji r)) (message_reactions d)"

text \<open>The page's copy of the reactions on a message agrees with the table.\<close>

definition reactions_in_sync :: "db \<Rightarrow> chat_page \<Rightarrow> uuid \<Rightarrow> bool" where
  "reactions_in_sync d p messageId \<longleftrightarrow>
     reactions_of p messageId = filter (\<lambda>r. message_id r = messageId) (message_reactions d)"

text \<open>Primary key and \<^verbatim>\<open>unique_user_message_emoji\<close> of \<^verbatim>\<open>message_reactions\<close>.\<close>

definition reactions_inv :: "db \<Rightarrow> bool" where
  "reactions_inv d \<longleftrightarrow>
     distinct (map rid (message_reactions d)) \<and> distinct (reaction_triples d)"

section \<open>Example states\<close>

text \<open>
  Users 1 and 2 have signed up (\<open>db_two_users\<close>); 1 has asked to follow 2
  (\<open>db_pending\<close>); 2 has accepted, which after its first statement gives
  \<open>db_accepted_no_chat\<close> and at its end \<open>db_accepted\<close>, with the chat 10 and its system
  message 20; in \<open>db_rejected\<close> user 2 has then rejected the same request from a list
  loaded before the acceptance. In \<open>db_reacted\<close> and \<open>db_two_reactions\<close> user 1 has
  reacted to the system message.
\<close>

definition db_two_users :: db where
  "db_two_users = empty_db\<lparr>profiles := [1, 2]\<rparr>"

definition db_accepted_no_chat :: db where
  "db_accepted_no_chat =
     db_two_users\<lparr>follows := [\<lparr>fid = 5, follower_id = 1, following_id = 2, status = Accepted\<rparr>]\<rparr>"

definition db_pending :: db where
  "db_pending =
     db_two_users\<lparr>follows := [\<lparr>fid = 5, follower_id = 1, following_id = 2, status = Pending\<rparr>]\<rparr>"

definition welcome_row :: message where
  "welcome_row = \<lparr>mid = 20, chat_id = 10, sender_id = 2, content = welcome_message,
                  media_url = None, created_at = 0\<rparr>"

definition db_accepted :: db where
  "db_accepted =
     db_accepted_no_chat\<lparr>chats := [\<lparr>cid = 10, user1_id = 1, user2_id = 2\<rparr>],
                          messages := [welcome_row]\<rparr>"

definition db_rejected :: db where
  "db_rejected =
     db_accepted\<lparr>follows := [\<lparr>fid = 5, follower_id = 1, following_id = 2, status = Rejected\<rparr>]\<rparr>"

definition requests_page_init :: requests_page where
  "requests_page_init = \<lparr>requests = [], requests_toasts = []\<rparr>"

definition discover_page_init :: discover_page where
  "discover_page_init = \<lparr>followStatus = Map.empty, discover_toasts = []\<rparr>"

definition hello :: message where
  "hello = \<lparr>mid = 7, chat_id = 10, sender_id = 1, content = [104, 105], media_url = None,
            created_at = 3\<rparr>"

definition png :: js_file where
  "png = \<lparr>file_name = map of_char ''a.png'', file_size = 3\<rparr>"

definition heart :: jsstring where
  "heart = [0x2764, 0xFE0F]"

definition thumb :: jsstring where
  "thumb = [0xD83D, 0xDC4D]"

definition db_reacted :: db where
  "db_reacted =
     db_accepted\<lparr>message_reactions :=
                   [\<lparr>rid = 30, message_id = 20, user_id = 1, emoji = heart\<rparr>]\<rparr>"

definition db_two_reactions :: db where
  "db_two_reactions =
     db_accepted\<lparr>message_reactions :=
                   [\<lparr>rid = 30, message_id = 20, user_id = 1, emoji = heart\<rparr>,
                    \<lparr>rid = 31, message_id = 20, user_id = 1, emoji = thumb\<rparr>]\<rparr>"

section \<open>Evaluation and list lemmas\<close>

lemmas stmt_defs = keep_def handle_new_user_def insert_follow_def update_follow_status_def
  insert_chat_def insert_message_def insert_reaction_def delete_reaction_def
  is_participant_def may_create_message_def in_own_chat_def select_chats_def single_def

lemmas example_defs = db_two_users_def db_accepted_no_chat_def db_accepted_def db_rejected_def
  empty_db_def welcome_row_def requests_page_init_def discover_page_init_def chat_page_init_def
  png_def heart_def thumb_def db_reacted_def hello_def db_pending_def db_two_reactions_def

lemma sort_pair: "sort [a, b :: nat] = [min a b, max a b]"
  by (auto simp: min_def max_def)

lemma find_SomeD: "find P xs = Some x \<Longrightarrow> x \<in> set xs \<and> P x"
  by (induction xs) (auto split: if_splits)

text \<open>The example states are reached by the statements and handlers themselves.\<close>

lemma db_two_users_run: "run_stmts empty_db [Signup 1, Signup 2] = db_two_users"
  by (simp add: run_stmts_def stmt_defs example_defs)

lemma db_rejected_run:
  "run_ops db_two_users
     [Op_handleFollow discover_page_init 1 2 5,
      Op_handleAccept requests_page_init 2 5 1 10 20 0,
      Op_handleReject requests_page_init 2 5] = db_rejected"
  by (simp add: run_ops_def handleFollow_def handleAccept_def handleReject_def sort_pair
      stmt_defs example_defs)

lemma db_accepted_no_chat_run:
  "run_stmts empty_db (take 4 first_contact_race) = db_accepted_no_chat"
  by (simp add: run_stmts_def first_contact_race_def stmt_defs example_defs)

lemma db_pending_run:
  "run_ops db_two_users [Op_handleFollow discover_page_init 1 2 5] = db_pending"
  by (simp add: run_ops_def handleFollow_def stmt_defs example_defs)

lemma db_accepted_run:
  "run_ops db_pending [Op_handleAccept requests_page_init 2 5 1 10 20 0] = db_accepted"
  by (simp add: run_ops_def handleAccept_def sort_pair stmt_defs example_defs)

lemma first_contact_race_run:
  "run_stmts empty_db first_contact_race =
   db_accepted_no_chat\<lparr>chats := [\<lparr>cid = 10, user1_id = 1, user2_id = 2\<rparr>]\<rparr>"
  by (simp add: run_stmts_def first_contact_race_def stmt_defs example_defs)

section \<open>The conversation registry\<close>

lemma chats_inv_empty: "chats_inv empty_db"
  by (simp add: chats_inv_def empty_db_def)

lemma chats_inv_insert_chat:
  assumes "chats_inv d" and "insert_chat d auth row = Inr d'"
  shows "chats_inv d'"
proof -
  from assms(2) have lt: "user1_id row < user2_id row"
    and fresh: "\<not> (\<exists>c\<in>set (chats d). user1_id c = user1_id row \<and> user2_id c = user2_id row)"
    and d': "d' = d\<lparr>chats := chats d @ [row]\<rparr>"
    by (auto simp: insert_chat_def split: if_splits)
  from fresh have "(user1_id row, user2_id row) \<notin> set (map (\<lambda>c. (user1_id c, user2_id c)) (chats d))"
    by auto
  with assms(1) lt d' show ?thesis
    by (auto simp: chats_inv_def)
qed

lemma chats_exec_stmt_other:
  "\<not> (\<exists>auth row. s = InsertChat auth row) \<Longrightarrow> chats (exec_stmt d s) = chats d"
  by (cases s)
     (auto simp: keep_def handle_new_user_def insert_follow_def update_follow_status_def insert_message_def
        insert_reaction_def delete_reaction_def split: sum.splits if_splits)

lemma chats_inv_exec_stmt: "chats_inv d \<Longrightarrow> chats_inv (exec_stmt d s)"
proof (cases "\<exists>auth row. s = InsertChat auth row")
  case True
  assume inv: "chats_inv d"
  from True obtain auth row where s: "s = InsertChat auth row" by blast
  show ?thesis
  proof (cases "insert_chat d auth row")
    case (Inl e)
    with inv s show ?thesis by (simp add: keep_def)
  next
    case (Inr d')
    with inv s chats_inv_insert_chat[OF inv Inr] show ?thesis by (simp add: keep_def)
  qed
next
  case False
  assume inv: "chats_inv d"
  from chats_exec_stmt_other[OF False] inv show ?thesis
    by (simp add: chats_inv_def)
qed

lemma chats_inv_run_stmts: "chats_inv d \<Longrightarrow> chats_inv (run_stmts d ss)"
  unfolding run_stmts_def
  by (induction ss arbitrary: d) (simp_all add: chats_inv_exec_stmt)

lemma filter_key_distinct:
  "distinct (map f xs) \<Longrightarrow> length (filter (\<lambda>x. f x = k) xs) \<le> Suc 0"
proof (induction xs)
  case Nil
  then show ?case by simp
next
  case (Cons x xs)
  show ?case
  proof (cases "f x = k")
    case True
    with Cons.prems have "k \<notin> f ` set xs" by auto
    then have "filter (\<lambda>x. f x = k) xs = []"
      by (auto simp: filter_empty_conv)
    with True show ?thesis by simp
  next
    case False
    with Cons show ?thesis by simp
  qed
qed

lemma chats_between_canonical:
  assumes "chats_inv d"
  shows "chats_between d a b =
         filter (\<lambda>c. (user1_id c, user2_id c) = (min a b, max a b)) (chats d)"
  unfolding chats_between_def
proof (rule filter_cong[OF refl])
  fix c assume "c \<in> set (chats d)"
  with assms have "user1_id c < user2_id c" by (simp add: chats_inv_def)
  then show "((user1_id c = a \<and> user2_id c = b) \<or> (user1_id c = b \<and> user2_id c = a)) =
             ((user1_id c, user2_id c) = (min a b, max a b))"
    by (auto simp: min_def max_def)
qed

lemma chats_between_le_one:
  assumes "chats_inv d"
  shows "length (chats_between d a b) \<le> Suc 0"
proof -
  from assms have "distinct (map (\<lambda>c. (user1_id c, user2_id c)) (chats d))"
    by (simp add: chats_inv_def)
  from filter_key_distinct[OF this, of "(min a b, max a b)"]
  show ?thesis
    by (simp only: chats_between_canonical[OF assms])
qed

text \<open>The other constraints are kept by every statement as well.\<close>

lemma follows_pk_exec_stmt:
  assumes "distinct (map fid (follows d))"
  shows "distinct (map fid (follows (exec_stmt d s)))"
proof (cases s)
  case (InsertFollow auth row)
  show ?thesis
  proof (cases "insert_follow d auth row")
    case (Inl e)
    with InsertFollow assms show ?thesis by (simp add: keep_def)
  next
    case (Inr d')
    then have "\<not> (\<exists>f\<in>set (follows d). fid f = fid row)" and "follows d' = follows d @ [row]"
      by (auto simp: insert_follow_def split: if_splits)
    then have "fid row \<notin> fid ` set (follows d)" and "follows d' = follows d @ [row]"
      by auto
    with InsertFollow Inr assms show ?thesis by (simp add: keep_def)
  qed
next
  case (UpdateFollowStatus auth i st)
  have "map fid (follows (update_follow_status d auth i st)) = map fid (follows d)"
    by (simp add: update_follow_status_def comp_def if_distrib[of fid] cong: if_cong)
  with UpdateFollowStatus assms show ?thesis by simp
qed (use assms in \<open>auto simp: keep_def handle_new_user_def insert_chat_def insert_message_def
      insert_reaction_def delete_reaction_def split: sum.splits if_splits\<close>)

lemma messages_pk_exec_stmt:
  assumes "distinct (map mid (messages d))"
  shows "distinct (map mid (messages (exec_stmt d s)))"
proof (cases s)
  case (InsertMessage auth row)
  show ?thesis
  proof (cases "insert_message d auth row")
    case (Inl e)
    with InsertMessage assms show ?thesis by (simp add: keep_def)
  next
    case (Inr d')
    then have "\<not> (\<exists>m\<in>set (messages d). mid m = mid row)" and "messages d' = messages d @ [row]"
      by (auto simp: insert_message_def split: if_splits)
    then have "mid row \<notin> mid ` set (messages d)" and "messages d' = messages d @ [row]"
      by auto
    with InsertMessage Inr assms show ?thesis by (simp add: keep_def)
  qed
qed (use assms in \<open>auto simp: keep_def handle_new_user_def insert_chat_def insert_follow_def
      update_follow_status_def insert_reaction_def delete_reaction_def
      split: sum.splits if_splits\<close>)

lemma reactions_inv_exec_stmt:
  assumes "reactions_inv d"
  shows "reactions_inv (exec_stmt d s)"
proof (cases s)
  case (InsertReaction auth row)
  show ?thesis
  proof (cases "insert_reaction d auth row")
    case (Inl e)
    with InsertReaction assms show ?thesis by (simp add: keep_def)
  next
    case (Inr d')
    then have a: "\<not> (\<exists>r\<in>set (message_reactions d). rid r = rid row)"
      and b: "\<not> (\<exists>r\<in>set (message_reactions d).
                message_id r = message_id row \<and> user_id r = user_id row \<and> emoji r = emoji row)"
      and d': "message_reactions d' = message_reactions d @ [row]"
      by (auto simp: insert_reaction_def split: if_splits)
    from a have "rid row \<notin> rid ` set (message_reactions d)" by auto
    moreover from b have "(message_id row, user_id row, emoji row) \<notin>
        (\<lambda>r. (message_id r, user_id r, emoji r)) ` set (message_reactions d)" by auto
    ultimately show ?thesis
      using InsertReaction Inr assms d'
      by (simp add: keep_def reactions_inv_def reaction_triples_def)
  qed
next
  case (DeleteReaction auth i)
  with assms show ?thesis
    by (simp add: delete_reaction_def reactions_inv_def reaction_triples_def distinct_map_filter)
qed (use assms in \<open>auto simp: keep_def handle_new_user_def insert_chat_def insert_follow_def
      update_follow_status_def insert_message_def reactions_inv_def reaction_triples_def
      split: sum.splits if_splits\<close>)

text \<open>
  Every operation of the pages is a run of statements, so what holds after every run of
  statements holds after every run of the pages' operations.
\<close>

lemma run_stmts_Nil: "run_stmts d [] = d"
  by (simp add: run_stmts_def)

lemma run_stmts_single: "run_stmts d [s] = exec_stmt d s"
  by (simp add: run_stmts_def)

lemma run_stmts_Cons: "run_stmts d (s # ss) = run_stmts (exec_stmt d s) ss"
  by (simp add: run_stmts_def)

lemma run_stmts_append: "run_stmts d (ss @ ts) = run_stmts (run_stmts d ss) ts"
  by (simp add: run_stmts_def)

lemma handleFollow_stmt:
  "fst (handleFollow d p user profileId new_id) =
   exec_stmt d (InsertFollow (Some user)
     \<lparr>fid = new_id, follower_id = user, following_id = profileId, status = Pending\<rparr>)"
  by (simp add: handleFollow_def keep_def split: sum.splits)

lemma handleReject_stmt:
  "fst (handleReject d p user requestId) =
   exec_stmt d (UpdateFollowStatus (Some user) requestId Rejected)"
  by (simp add: handleReject_def)

lemma handleAccept_stmts:
  "\<exists>ss. fst (handleAccept d p user requestId followerId new_chat_id new_message_id now) =
         run_stmts d (UpdateFollowStatus (Some user) requestId Accepted # ss)"
proof -
  let ?d1 = "update_follow_status d (Some user) requestId Accepted"
  let ?a = "sort [user, followerId] ! 0" and ?b = "sort [user, followerId] ! 1"
  let ?c = "\<lparr>cid = new_chat_id, user1_id = ?a, user2_id = ?b\<rparr>"
  let ?msg = "\<lambda>i. \<lparr>mid = new_message_id, chat_id = i, sender_id = user,
                    content = welcome_message, media_url = None, created_at = now\<rparr>"
  have send: "\<exists>ss. fst (case insert_message d' (Some user) (?msg i) of
                  Inl messageError \<Rightarrow> (d', x) | Inr d'' \<Rightarrow> (d'', y)) = run_stmts d' ss"
    for d' :: db and i :: uuid and x y :: requests_page
    by (rule exI[of _ "[InsertMessage (Some user) (?msg i)]"])
       (simp add: run_stmts_single keep_def split: sum.splits)
  show ?thesis
  proof (cases "single (select_chats ?d1 (Some user) ?a ?b)")
    case (Inr existingChat)
    from send[where d' = ?d1 and i = "cid existingChat"] obtain ss where
      "fst (case insert_message ?d1 (Some user) (?msg (cid existingChat)) of
              Inl messageError \<Rightarrow> (?d1, p\<lparr>requests_toasts := requests_toasts p @
                                   [toast_error ''Failed to accept request'']\<rparr>)
            | Inr d'' \<Rightarrow> (d'', p\<lparr>requests := filter (\<lambda>r. req_id r \<noteq> requestId) (requests p),
                        requests_toasts := requests_toasts p @
                          [toast_success ''Follow request accepted! You can now chat.'']\<rparr>)) =
       run_stmts ?d1 ss"
      by blast
    with Inr show ?thesis
      by (auto simp: handleAccept_def Let_def run_stmts_Cons)
  next
    case (Inl e)
    show ?thesis
    proof (cases "insert_chat ?d1 (Some user) ?c")
      case (Inl chatError)
      with \<open>single (select_chats ?d1 (Some user) ?a ?b) = Inl e\<close> show ?thesis
        by (auto simp: handleAccept_def Let_def run_stmts_Cons intro!: exI[of _ "[]"]
            simp: run_stmts_Nil)
    next
      case (Inr d2)
      from send[where d' = d2 and i = new_chat_id] obtain ss where
        "fst (case insert_message d2 (Some user) (?msg new_chat_id) of
              Inl messageError \<Rightarrow> (d2, p\<lparr>requests_toasts := requests_toasts p @
                                   [toast_error ''Failed to accept request'']\<rparr>)
            | Inr d'' \<Rightarrow> (d'', p\<lparr>requests := filter (\<lambda>r. req_id r \<noteq> requestId) (requests p),
                        requests_toasts := requests_toasts p @
                          [toast_success ''Follow request accepted! You can now chat.'']\<rparr>)) =
         run_stmts d2 ss"
        by blast
      moreover from Inr have "run_stmts ?d1 (InsertChat (Some user) ?c # ss) = run_stmts d2 ss"
        by (simp add: run_stmts_Cons keep_def)
      ultimately show ?thesis
        using Inr \<open>single (select_chats ?d1 (Some user) ?a ?b) = Inl e\<close>
        by (auto simp: handleAccept_def Let_def run_stmts_Cons
            intro!: exI[of _ "InsertChat (Some user) ?c # ss"])
    qed
  qed
qed

lemma initializeChat_stmts:
  "\<exists>ss. fst (initializeChat d p user userId new_id) = run_stmts d ss"
proof (cases "initializeChat_reads d p user userId")
  case (Done p')
  then show ?thesis
    by (auto simp: initializeChat_def intro!: exI[of _ "[]"] simp: run_stmts_Nil)
next
  case (Await_insert p')
  then show ?thesis
    by (auto simp: initializeChat_def initializeChat_create_def Let_def keep_def run_stmts_single
        split: sum.splits
        intro!: exI[of _ "[InsertChat (Some user)
           \<lparr>cid = new_id, user1_id = sort [user, userId] ! 0, user2_id = sort [user, userId] ! 1\<rparr>]"])
qed

lemma handleSendMessage_stmts:
  "\<exists>ss. fst (handleSendMessage d p user upload new_id now) = run_stmts d ss"
proof -
  let ?row = "\<lparr>mid = new_id, chat_id = (case chatId p of Some c \<Rightarrow> c | None \<Rightarrow> 0),
      sender_id = user,
      content = (if trim (newMessage p) \<noteq> [] then trim (newMessage p)
                 else (case selectedFile p of Some f \<Rightarrow> file_name f | None \<Rightarrow> [])),
      media_url = (case selectedFile p of None \<Rightarrow> None
                   | Some f \<Rightarrow> (case upload of Inl e \<Rightarrow> None | Inr url \<Rightarrow> Some url)),
      created_at = now\<rparr>"
  have "fst (handleSendMessage d p user upload new_id now) = d \<or>
        fst (handleSendMessage d p user upload new_id now) =
          exec_stmt d (InsertMessage (Some user) ?row)"
    by (cases "chatId p"; cases "selectedFile p"; cases upload)
       (auto simp: handleSendMessage_def Let_def keep_def split: sum.splits)
  then show ?thesis
    by (metis run_stmts_Nil run_stmts_single)
qed

lemma handleReaction_stmts:
  "\<exists>ss. fst (handleReaction d p user messageId e new_id) = run_stmts d ss"
proof -
  have "fst (handleReaction d p user messageId e new_id) = d \<or>
        (\<exists>s. fst (handleReaction d p user messageId e new_id) = exec_stmt d s)"
  proof (cases user)
    case None
    then show ?thesis by (simp add: handleReaction_def)
  next
    case (Some u)
    show ?thesis
    proof (cases "find (\<lambda>r. user_id r = u \<and> emoji r = e) (reactions_of p messageId)")
      case None
      have "fst (handleReaction d p user messageId e new_id) =
            exec_stmt d (InsertReaction (Some u)
              \<lparr>rid = new_id, message_id = messageId, user_id = u, emoji = e\<rparr>)"
        using Some None by (simp add: handleReaction_def keep_def split: sum.splits)
      then show ?thesis by blast
    next
      case (Some r)
      have "fst (handleReaction d p user messageId e new_id) =
            exec_stmt d (DeleteReaction (Some u) (rid r))"
        using \<open>user = Some u\<close> Some by (simp add: handleReaction_def)
      then show ?thesis by blast
    qed
  qed
  then show ?thesis
    by (metis run_stmts_Nil run_stmts_single)
qed

lemma exec_op_stmts: "\<exists>ss. exec_op d op = run_stmts d ss"
proof (cases op)
  case (Op_handleFollow p user profileId new_id)
  then show ?thesis
    by (metis exec_op.simps(1) handleFollow_stmt run_stmts_single)
next
  case (Op_handleAccept p user requestId followerId nc nm now)
  then show ?thesis
    using handleAccept_stmts[of d p user requestId followerId nc nm now] by auto
next
  case (Op_handleReject p user requestId)
  then show ?thesis
    by (metis exec_op.simps(3) handleReject_stmt run_stmts_single)
next
  case (Op_initializeChat p user userId new_id)
  then show ?thesis
    using initializeChat_stmts[of d p user userId new_id] by auto
next
  case (Op_handleSendMessage p user upload new_id now)
  then show ?thesis
    using handleSendMessage_stmts[of d p user upload new_id now] by auto
next
  case (Op_handleReaction p user messageId e new_id)
  then show ?thesis
    using handleReaction_stmts[of d p user messageId e new_id] by auto
qed

lemma run_ops_stmts: "\<exists>ss. run_ops d ops = run_stmts d ss"
proof (induction ops arbitrary: d)
  case Nil
  show ?case
    by (rule exI[of _ "[]"]) (simp add: run_ops_def run_stmts_def)
next
  case (Cons op ops)
  from exec_op_stmts[of d op] obtain ss where a: "exec_op d op = run_stmts d ss" by blast
  from Cons.IH[of "exec_op d op"] obtain ts where
    b: "run_ops (exec_op d op) ops = run_stmts (exec_op d op) ts" by blast
  have "run_ops d (op # ops) = run_ops (exec_op d op) ops"
    by (simp add: run_ops_def)
  with a b have "run_ops d (op # ops) = run_stmts d (ss @ ts)"
    by (simp add: run_stmts_append)
  then show ?case by blast
qed

lemma constraints_run_stmts:
  assumes "chats_inv d \<and> distinct (map fid (follows d)) \<and> distinct (map mid (messages d)) \<and>
           reactions_inv d"
  shows "chats_inv (run_stmts d ss) \<and> distinct (map fid (follows (run_stmts d ss))) \<and>
         distinct (map mid (messages (run_stmts d ss))) \<and> reactions_inv (run_stmts d ss)"
  using assms
proof (induction ss arbitrary: d)
  case Nil
  then show ?case by (simp add: run_stmts_Nil)
next
  case (Cons s ss)
  from Cons.prems have "chats_inv (exec_stmt d s) \<and>
      distinct (map fid (follows (exec_stmt d s))) \<and>
      distinct (map mid (messages (exec_stmt d s))) \<and> reactions_inv (exec_stmt d s)"
    by (simp add: chats_inv_exec_stmt follows_pk_exec_stmt messages_pk_exec_stmt
        reactions_inv_exec_stmt)
  from Cons.IH[OF this] show ?case by (simp add: run_stmts_Cons)
qed

lemma constraints_reachable:
  "chats_inv (run_ops (run_stmts empty_db ss) ops) \<and>
   distinct (map fid (follows (run_ops (run_stmts empty_db ss) ops))) \<and>
   distinct (map mid (messages (run_ops (run_stmts empty_db ss) ops))) \<and>
   reactions_inv (run_ops (run_stmts empty_db ss) ops)"
proof -
  from run_ops_stmts[of "run_stmts empty_db ss" ops] obtain ts where
    "run_ops (run_stmts empty_db ss) ops = run_stmts empty_db (ss @ ts)"
    by (auto simp: run_stmts_append)
  moreover have "chats_inv empty_db \<and> distinct (map fid (follows empty_db)) \<and>
      distinct (map mid (messages empty_db)) \<and> reactions_inv empty_db"
    by (simp add: empty_db_def chats_inv_def reactions_inv_def reaction_triples_def)
  ultimately show ?thesis
    using constraints_run_stmts[of empty_db "ss @ ts"] by simp
qed

text \<open>
  C1. Start from the empty database and let any callers issue any statements, committed
  in any order, and run any of the pages' operations: every stored chat row has
  \<open>user1_id < user2_id\<close>, and at most one chat row lies between any two users, whichever
  side created it.
\<close>

theorem one_chat_per_pair:
  "(\<forall>c\<in>set (chats (run_ops (run_stmts empty_db ss) ops)). user1_id c < user2_id c) \<and>
   length (chats_between (run_ops (run_stmts empty_db ss) ops) a b) \<le> 1"
proof -
  have inv: "chats_inv (run_ops (run_stmts empty_db ss) ops)"
    using constraints_reachable[of ss ops] by (rule conjunct1)
  then show ?thesis
    using chats_between_le_one[OF inv, of a b] by (simp add: chats_inv_def)
qed

theorem one_chat_per_pair_witness:
  "\<lparr>cid = 10, user1_id = 1, user2_id = 2\<rparr> \<in>
     set (chats (run_ops (run_stmts empty_db first_contact_race)
                   [Op_initializeChat chat_page_init 2 1 12])) \<and>
   user1_id \<lparr>cid = 10, user1_id = 1, user2_id = 2\<rparr> < user2_id \<lparr>cid = 10, user1_id = 1, user2_id = 2\<rparr> \<and>
   length (chats_between (run_ops (run_stmts empty_db first_contact_race)
                            [Op_initializeChat chat_page_init 2 1 12]) 2 1) = 1"
proof -
  have run: "run_ops (run_stmts empty_db first_contact_race)
               [Op_initializeChat chat_page_init 2 1 12] =
             db_accepted_no_chat\<lparr>chats := [\<lparr>cid = 10, user1_id = 1, user2_id = 2\<rparr>]\<rparr>"
    unfolding first_contact_race_run
    by (simp add: run_ops_def initializeChat_def initializeChat_reads_def isConnected_def
        select_accepted_follows_def sort_pair stmt_defs example_defs)
  from one_chat_per_pair[of first_contact_race "[Op_initializeChat chat_page_init 2 1 12]" 2 1]
  show ?thesis
    unfolding run by (simp add: chats_between_def example_defs)
qed

section \<open>Losing a race on a constraint\<close>

text \<open>
  C2, as claimed, fails. Both users open the chat while no chat row exists; user 1's
  insert succeeds, user 2's then violates the uniqueness constraint: user 2 is shown
  "Failed to load chat" and has no chat id. A reaction added from a page whose copy lacks
  the stored reaction is shown "Failed to add reaction".
\<close>

theorem losing_creator_sees_error:
  "initializeChat_reads db_accepted_no_chat chat_page_init 1 2 =
     Await_insert (chat_page_init\<lparr>otherUser := Some 2, canChat := True\<rparr>) \<and>
   initializeChat_reads db_accepted_no_chat chat_page_init 2 1 =
     Await_insert (chat_page_init\<lparr>otherUser := Some 1, canChat := True\<rparr>) \<and>
   initializeChat_create db_accepted_no_chat
       (chat_page_init\<lparr>otherUser := Some 2, canChat := True\<rparr>) 1 2 10 =
     (db_accepted_no_chat\<lparr>chats := [\<lparr>cid = 10, user1_id = 1, user2_id = 2\<rparr>]\<rparr>,
      chat_page_init\<lparr>otherUser := Some 2, canChat := True, chatId := Some 10, loading := False\<rparr>) \<and>
   initializeChat_create
       (db_accepted_no_chat\<lparr>chats := [\<lparr>cid = 10, user1_id = 1, user2_id = 2\<rparr>]\<rparr>)
       (chat_page_init\<lparr>otherUser := Some 1, canChat := True\<rparr>) 2 1 11 =
     (db_accepted_no_chat\<lparr>chats := [\<lparr>cid = 10, user1_id = 1, user2_id = 2\<rparr>]\<rparr>,
      chat_page_init\<lparr>otherUser := Some 1, canChat := True, chatId := None, loading := False,
        chat_toasts := [toast_error ''Failed to load chat'']\<rparr>) \<and>
   handleReaction db_reacted chat_page_init (Some 1) 20 heart 31 =
     (db_reacted, chat_page_init\<lparr>chat_toasts := [toast_error ''Failed to add reaction'']\<rparr>)"
  by (simp add: example_defs initializeChat_reads_def initializeChat_create_def
      failed_to_load_def isConnected_def select_accepted_follows_def sort_pair
      handleReaction_def reactions_of_def stmt_defs)

text \<open>
  C2, amended. When the chat row of the pair exists by the time the insert runs,
  \<^verbatim>\<open>initializeChat\<close> reads nothing again: it shows "Failed to load chat" and sets no
  chat id. When the reaction exists and the page's copy does not hold it,
  \<^verbatim>\<open>handleReaction\<close> shows "Failed to add reaction". The database stays as it was in
  both cases.
\<close>

theorem constraint_violation_surfaced:
  "((\<exists>c\<in>set (chats d). user1_id c = min user userId \<and> user2_id c = max user userId) \<longrightarrow>
      initializeChat_create d p user userId new_id =
        (d, p\<lparr>chat_toasts := chat_toasts p @ [toast_error ''Failed to load chat''],
              loading := False\<rparr>)) \<and>
   ((\<exists>r\<in>set (message_reactions d). message_id r = messageId \<and> user_id r = u \<and> emoji r = e) \<and>
    find (\<lambda>r. user_id r = u \<and> emoji r = e) (reactions_of p messageId) = None \<longrightarrow>
      handleReaction d p (Some u) messageId e new_id =
        (d, p\<lparr>chat_toasts := chat_toasts p @ [toast_error ''Failed to add reaction''],
              showReactionPicker := None\<rparr>))"
proof (intro conjI impI)
  assume "\<exists>c\<in>set (chats d). user1_id c = min user userId \<and> user2_id c = max user userId"
  then have "\<exists>e. insert_chat d (Some user)
      \<lparr>cid = new_id, user1_id = min user userId, user2_id = max user userId\<rparr> = Inl e"
    by (auto simp: insert_chat_def)
  then show "initializeChat_create d p user userId new_id =
        (d, p\<lparr>chat_toasts := chat_toasts p @ [toast_error ''Failed to load chat''],
              loading := False\<rparr>)"
    by (auto simp: initializeChat_create_def sort_pair failed_to_load_def)
next
  assume a: "(\<exists>r\<in>set (message_reactions d). message_id r = messageId \<and> user_id r = u \<and> emoji r = e) \<and>
    find (\<lambda>r. user_id r = u \<and> emoji r = e) (reactions_of p messageId) = None"
  then have "\<exists>x. insert_reaction d (Some u)
      \<lparr>rid = new_id, message_id = messageId, user_id = u, emoji = e\<rparr> = Inl x"
    by (auto simp: insert_reaction_def)
  with a show "handleReaction d p (Some u) messageId e new_id =
        (d, p\<lparr>chat_toasts := chat_toasts p @ [toast_error ''Failed to add reaction''],
              showReactionPicker := None\<rparr>)"
    by (auto simp: handleReaction_def)
qed

theorem constraint_violation_surfaced_witness:
  "(\<exists>c\<in>set (chats db_accepted). user1_id c = min 2 1 \<and> user2_id c = max 2 1) \<and>
   initializeChat_create db_accepted chat_page_init 2 1 11 =
     (db_accepted, chat_page_init\<lparr>chat_toasts := [toast_error ''Failed to load chat''],
                     loading := False\<rparr>) \<and>
   (\<exists>r\<in>set (message_reactions db_reacted).
       message_id r = 20 \<and> user_id r = 1 \<and> emoji r = heart) \<and>
   find (\<lambda>r. user_id r = 1 \<and> emoji r = heart) (reactions_of chat_page_init 20) = None \<and>
   handleReaction db_reacted chat_page_init (Some 1) 20 heart 31 =
     (db_reacted, chat_page_init\<lparr>chat_toasts := [toast_error ''Failed to add reaction''],
                    showReactionPicker := None\<rparr>)"
  using constraint_violation_surfaced[where d = db_accepted and user = 2 and userId = 1
      and p = chat_page_init and new_id = 11]
    constraint_violation_surfaced[where d = db_reacted and messageId = 20 and u = 1
      and e = heart and p = chat_page_init and new_id = 31]
  by (simp add: example_defs reactions_of_def)

section \<open>Accepting a follow request\<close>

lemma select_chats_between:
  assumes "chats_inv d" and "chats d1 = chats d"
  shows "select_chats d1 (Some user) (min user other) (max user other) = chats_between d user other"
  unfolding select_chats_def chats_between_def assms(2)
proof (rule filter_cong[OF refl])
  fix c assume "c \<in> set (chats d)"
  with assms(1) have "user1_id c < user2_id c" by (simp add: chats_inv_def)
  then show "(is_participant (Some user) c \<and> user1_id c = min user other \<and>
              user2_id c = max user other) =
             ((user1_id c = user \<and> user2_id c = other) \<or>
              (user1_id c = other \<and> user2_id c = user))"
    by (auto simp: min_def max_def is_participant_def)
qed

lemma same_fid_same_row:
  "distinct (map fid fs) \<Longrightarrow> f \<in> set fs \<Longrightarrow> x \<in> set fs \<Longrightarrow> fid x = fid f \<Longrightarrow> x = f"
  by (auto simp: distinct_map inj_on_def)

lemma update_follow_status_followee:
  assumes "distinct (map fid (follows d))" and "f \<in> set (follows d)"
    and "fid f = requestId" and "following_id f = user"
  shows "follows (update_follow_status d auth requestId st) =
         (if auth = Some user
          then map (\<lambda>x. if fid x = requestId then x\<lparr>status := st\<rparr> else x) (follows d)
          else follows d)"
proof -
  have row: "\<And>x. x \<in> set (follows d) \<Longrightarrow> fid x = requestId \<Longrightarrow> following_id x = user"
    using same_fid_same_row[OF assms(1,2)] assms(3,4) by auto
  have "map (\<lambda>x. if fid x = requestId \<and> auth = Some (following_id x)
                   then x\<lparr>status := st\<rparr> else x) (follows d) =
        map (\<lambda>x. if auth = Some user
                  then (if fid x = requestId then x\<lparr>status := st\<rparr> else x) else x) (follows d)"
    by (rule map_cong[OF refl]) (auto dest: row)
  then show ?thesis
    by (cases "auth = Some user") (simp_all add: update_follow_status_def)
qed

lemma insert_message_participant:
  assumes "c \<in> set (chats d2)" and "is_participant (Some user) c"
    and "new_message_id \<notin> mid ` set (messages d2)" and "user \<in> set (profiles d2)"
    and "chat_id row = cid c" and "sender_id row = user" and "mid row = new_message_id"
  shows "insert_message d2 (Some user) row = Inr (d2\<lparr>messages := messages d2 @ [row]\<rparr>)"
proof -
  from assms(1,2,5,6) have may: "may_create_message d2 (Some user) row"
    by (auto simp: may_create_message_def)
  from assms(3,7) have fresh: "\<not> (\<exists>m\<in>set (messages d2). mid m = mid row)"
    by (metis imageI)
  from may fresh assms(4,6) show ?thesis
    by (simp add: insert_message_def)
qed

text \<open>
  C3. Only the followee's update changes the edge. When the followee of an edge between
  two different users accepts, the edge becomes accepted, the chat of the pair is created
  if none exists and left alone otherwise, so that exactly one exists afterwards, and
  exactly one message, the system message, is added, in that chat.
\<close>

theorem handleAccept_followee:
  assumes inv: "chats_inv d"
    and pk: "distinct (map fid (follows d))"
    and edge: "f \<in> set (follows d)" "fid f = requestId" "follower_id f = followerId"
      "following_id f = user"
    and neq: "followerId \<noteq> user"
    and prof: "user \<in> set (profiles d)" "followerId \<in> set (profiles d)"
    and fresh: "new_chat_id \<notin> cid ` set (chats d)" "new_message_id \<notin> mid ` set (messages d)"
  shows "\<exists>d' p' c.
     handleAccept d p user requestId followerId new_chat_id new_message_id now = (d', p') \<and>
     follows d' = map (\<lambda>x. if fid x = requestId then x\<lparr>status := Accepted\<rparr> else x) (follows d) \<and>
     chats_between d' user followerId = [c] \<and>
     chats d' = (if chats_between d user followerId = [] then chats d @ [c] else chats d) \<and>
     (chats_between d user followerId = [] \<longrightarrow>
        c = \<lparr>cid = new_chat_id, user1_id = min user followerId,
              user2_id = max user followerId\<rparr>) \<and>
     messages d' = messages d @
       [\<lparr>mid = new_message_id, chat_id = cid c, sender_id = user, content = welcome_message,
         media_url = None, created_at = now\<rparr>] \<and>
     (\<forall>auth st. auth \<noteq> Some user \<longrightarrow>
        follows (update_follow_status d auth requestId st) = follows d)"
proof -
  let ?a = "min user followerId" and ?b = "max user followerId"
  let ?d1 = "update_follow_status d (Some user) requestId Accepted"
  let ?msg = "\<lambda>i. \<lparr>mid = new_message_id, chat_id = i, sender_id = user,
                    content = welcome_message, media_url = None, created_at = now\<rparr>"
  let ?ok = "p\<lparr>requests := filter (\<lambda>r. req_id r \<noteq> requestId) (requests p),
               requests_toasts := requests_toasts p @
                 [toast_success ''Follow request accepted! You can now chat.'']\<rparr>"
  have d1: "chats ?d1 = chats d" "messages ?d1 = messages d" "profiles ?d1 = profiles d"
    by (simp_all add: update_follow_status_def)
  have fol: "follows ?d1 =
      map (\<lambda>x. if fid x = requestId then x\<lparr>status := Accepted\<rparr> else x) (follows d)"
    using update_follow_status_followee[OF pk edge(1,2,4), of "Some user" Accepted] by simp
  have others: "\<forall>auth st. auth \<noteq> Some user \<longrightarrow>
        follows (update_follow_status d auth requestId st) = follows d"
    using update_follow_status_followee[OF pk edge(1,2,4)] by simp
  have sel: "select_chats ?d1 (Some user) ?a ?b = chats_between d user followerId"
    by (rule select_chats_between[OF inv d1(1)])
  have ab: "?a < ?b" "?a \<in> set (profiles d)" "?b \<in> set (profiles d)"
    using neq prof by (auto simp: min_def max_def)
  have part: "is_participant (Some user) \<lparr>cid = i, user1_id = ?a, user2_id = ?b\<rparr>" for i
    by (auto simp: is_participant_def min_def max_def)
  show ?thesis
  proof (cases "chats_between d user followerId")
    case Nil
    let ?c = "\<lparr>cid = new_chat_id, user1_id = ?a, user2_id = ?b\<rparr>"
    let ?d2 = "?d1\<lparr>chats := chats d @ [?c]\<rparr>"
    from Nil have nopair: "\<not> (\<exists>c\<in>set (chats d). user1_id c = ?a \<and> user2_id c = ?b)"
      unfolding chats_between_canonical[OF inv] by (auto simp: filter_empty_conv)
    from fresh(1) have nocid: "\<not> (\<exists>c\<in>set (chats d). cid c = new_chat_id)"
      by (metis imageI)
    have ins: "insert_chat ?d1 (Some user) ?c = Inr ?d2"
      using part[of new_chat_id] ab nopair nocid by (simp add: insert_chat_def d1)
    have snd: "insert_message ?d2 (Some user) (?msg new_chat_id) =
               Inr (?d2\<lparr>messages := messages d @ [?msg new_chat_id]\<rparr>)"
      using insert_message_participant[of ?c ?d2 user new_message_id "?msg new_chat_id"]
        part[of new_chat_id] fresh(2) prof(1) by (simp add: d1)
    have run: "handleAccept d p user requestId followerId new_chat_id new_message_id now =
               (?d2\<lparr>messages := messages d @ [?msg new_chat_id]\<rparr>, ?ok)"
      by (simp add: handleAccept_def sort_pair sel Nil single_def ins snd
          del: sort_key_simps)
    have "chats_between (?d2\<lparr>messages := messages d @ [?msg new_chat_id]\<rparr>) user followerId =
          chats_between d user followerId @ [?c]"
      by (auto simp: chats_between_def min_def max_def)
    with Nil run fol others show ?thesis
      by (simp add: d1)
  next
    case (Cons c cs)
    from chats_between_le_one[OF inv, of user followerId] Cons have cs: "cs = []"
      by simp
    from Cons have cin: "c \<in> set (chats d)" and cpair:
        "(user1_id c = user \<and> user2_id c = followerId) \<or>
         (user1_id c = followerId \<and> user2_id c = user)"
      by (auto simp: chats_between_def filter_eq_Cons_iff)
    from cpair have cpart: "is_participant (Some user) c"
      by (auto simp: is_participant_def)
    have snd: "insert_message ?d1 (Some user) (?msg (cid c)) =
               Inr (?d1\<lparr>messages := messages d @ [?msg (cid c)]\<rparr>)"
      using insert_message_participant[of c ?d1 user new_message_id "?msg (cid c)"]
        cin cpart fresh(2) prof(1) by (simp add: d1)
    have run: "handleAccept d p user requestId followerId new_chat_id new_message_id now =
               (?d1\<lparr>messages := messages d @ [?msg (cid c)]\<rparr>, ?ok)"
      by (simp add: handleAccept_def sort_pair sel Cons cs single_def snd
          del: sort_key_simps)
    have "chats_between (?d1\<lparr>messages := messages d @ [?msg (cid c)]\<rparr>) user followerId =
          chats_between d user followerId"
      by (simp add: chats_between_def d1)
    with Cons cs run fol others show ?thesis
      by (simp add: d1)
  qed
qed

theorem handleAccept_followee_witness:
  "chats_inv db_pending \<and> distinct (map fid (follows db_pending)) \<and>
   \<lparr>fid = 5, follower_id = 1, following_id = 2, status = Pending\<rparr> \<in> set (follows db_pending) \<and>
   (1::uuid) \<noteq> 2 \<and> 2 \<in> set (profiles db_pending) \<and> 1 \<in> set (profiles db_pending) \<and>
   10 \<notin> cid ` set (chats db_pending) \<and> 20 \<notin> mid ` set (messages db_pending) \<and>
   fst (handleAccept db_pending requests_page_init 2 5 1 10 20 0) = db_accepted \<and>
   chats_between db_accepted 2 1 = [\<lparr>cid = 10, user1_id = 1, user2_id = 2\<rparr>] \<and>
   messages db_accepted = [welcome_row] \<and>
   chats_inv db_accepted \<and> distinct (map fid (follows db_accepted)) \<and>
   \<lparr>fid = 5, follower_id = 1, following_id = 2, status = Accepted\<rparr> \<in> set (follows db_accepted) \<and>
   2 \<in> set (profiles db_accepted) \<and> 1 \<in> set (profiles db_accepted) \<and>
   11 \<notin> cid ` set (chats db_accepted) \<and> 21 \<notin> mid ` set (messages db_accepted) \<and>
   fst (handleAccept db_accepted requests_page_init 2 5 1 11 21 1) =
     db_accepted\<lparr>messages := [welcome_row, welcome_row\<lparr>mid := 21, created_at := 1\<rparr>]\<rparr>"
proof -
  have h: "chats_inv db_pending" "distinct (map fid (follows db_pending))"
    "\<lparr>fid = 5, follower_id = 1, following_id = 2, status = Pending\<rparr> \<in> set (follows db_pending)"
    "fid \<lparr>fid = 5, follower_id = 1, following_id = 2, status = Pending\<rparr> = 5"
    "follower_id \<lparr>fid = 5, follower_id = 1, following_id = 2, status = Pending\<rparr> = 1"
    "following_id \<lparr>fid = 5, follower_id = 1, following_id = 2, status = Pending\<rparr> = 2"
    "(1::uuid) \<noteq> 2" "2 \<in> set (profiles db_pending)" "1 \<in> set (profiles db_pending)"
    "10 \<notin> cid ` set (chats db_pending)" "20 \<notin> mid ` set (messages db_pending)"
    by (simp_all add: example_defs chats_inv_def)
  have run: "handleAccept db_pending requests_page_init 2 5 1 10 20 0 =
      (db_accepted, requests_page_init\<lparr>requests_toasts :=
         [toast_success ''Follow request accepted! You can now chat.'']\<rparr>)"
    by (simp add: handleAccept_def sort_pair example_defs stmt_defs)
  have k: "chats_inv db_accepted" "distinct (map fid (follows db_accepted))"
    "\<lparr>fid = 5, follower_id = 1, following_id = 2, status = Accepted\<rparr> \<in> set (follows db_accepted)"
    "fid \<lparr>fid = 5, follower_id = 1, following_id = 2, status = Accepted\<rparr> = 5"
    "follower_id \<lparr>fid = 5, follower_id = 1, following_id = 2, status = Accepted\<rparr> = 1"
    "following_id \<lparr>fid = 5, follower_id = 1, following_id = 2, status = Accepted\<rparr> = 2"
    "(1::uuid) \<noteq> 2" "2 \<in> set (profiles db_accepted)" "1 \<in> set (profiles db_accepted)"
    "11 \<notin> cid ` set (chats db_accepted)" "21 \<notin> mid ` set (messages db_accepted)"
    by (simp_all add: example_defs chats_inv_def)
  have again: "handleAccept db_accepted requests_page_init 2 5 1 11 21 1 =
      (db_accepted\<lparr>messages := [welcome_row, welcome_row\<lparr>mid := 21, created_at := 1\<rparr>]\<rparr>,
       requests_page_init\<lparr>requests_toasts :=
         [toast_success ''Follow request accepted! You can now chat.'']\<rparr>)"
    by (simp add: handleAccept_def sort_pair example_defs stmt_defs)
  from handleAccept_followee[OF h, of requests_page_init 0]
    handleAccept_followee[OF k, of requests_page_init 1] h k run again
  show ?thesis
    by (simp add: example_defs chats_between_def)
qed

section \<open>Who may send\<close>

text \<open>
  C4, as claimed, fails: in the state where the request was accepted and later rejected,
  user 1 is not connected to user 2, yet the message 1 sends into their chat is stored.
\<close>

theorem send_by_disconnected_participant:
  "\<not> isConnected db_rejected 1 2 \<and>
   handleSendMessage db_rejected (chat_page_init\<lparr>chatId := Some 10, newMessage := [104, 105]\<rparr>)
       1 (Inl StorageError) 7 3 =
     (db_rejected\<lparr>messages := [welcome_row, hello]\<rparr>,
      chat_page_init\<lparr>chatId := Some 10\<rparr>, [Messages_insert])"
  by (simp add: example_defs isConnected_def select_accepted_follows_def handleSendMessage_def
      trim_def is_whitespace_def stmt_defs)

lemma handleSendMessage_rejected:
  assumes "chatId p = Some chat"
    and "\<And>row. chat_id row = chat \<Longrightarrow> sender_id row = user \<Longrightarrow>
           \<not> may_create_message d (Some user) row"
  shows "fst (handleSendMessage d p user upload new_id now) = d"
proof -
  have rej: "\<And>row. chat_id row = chat \<Longrightarrow> sender_id row = user \<Longrightarrow>
           insert_message d (Some user) row = Inl RlsViolation"
    using assms(2) by (simp add: insert_message_def)
  show ?thesis
    using assms(1)
    by (cases "selectedFile p"; cases upload)
       (simp_all add: handleSendMessage_def Let_def rej)
qed

text \<open>
  C4, amended. What is checked when a message is written is the policy of the table: the
  caller is the sender and one of the two users of the chat. A caller who is not, or is
  not signed in, is refused with a policy violation and nothing is stored, also through
  the page's handler. A caller who is gets the row stored whatever the follows table
  holds.
\<close>

theorem insert_message_gate:
  "(\<not> (auth = Some (sender_id row) \<and>
        (\<exists>c\<in>set (chats d). cid c = chat_id row \<and>
           (auth = Some (user1_id c) \<or> auth = Some (user2_id c)))) \<longrightarrow>
      insert_message d auth row = Inl RlsViolation \<and>
      exec_stmt d (InsertMessage auth row) = d \<and>
      (chatId p = Some (chat_id row) \<and> auth = Some user \<and> sender_id row = user \<longrightarrow>
         fst (handleSendMessage d p user upload new_id now) = d)) \<and>
   (auth = Some (sender_id row) \<and>
    (\<exists>c\<in>set (chats d). cid c = chat_id row \<and>
       (auth = Some (user1_id c) \<or> auth = Some (user2_id c))) \<and>
    mid row \<notin> mid ` set (messages d) \<and> sender_id row \<in> set (profiles d) \<longrightarrow>
      insert_message (d\<lparr>follows := fs\<rparr>) auth row =
        Inr (d\<lparr>follows := fs, messages := messages d @ [row]\<rparr>))"
proof (intro conjI impI)
  assume a: "\<not> (auth = Some (sender_id row) \<and>
        (\<exists>c\<in>set (chats d). cid c = chat_id row \<and>
           (auth = Some (user1_id c) \<or> auth = Some (user2_id c))))"
  then have no: "\<not> may_create_message d auth row"
    by (simp add: may_create_message_def is_participant_def)
  then show r: "insert_message d auth row = Inl RlsViolation"
    by (simp add: insert_message_def)
  then show "exec_stmt d (InsertMessage auth row) = d"
    by (simp add: keep_def)
  assume b: "chatId p = Some (chat_id row) \<and> auth = Some user \<and> sender_id row = user"
  with a have "\<And>row'. chat_id row' = chat_id row \<Longrightarrow> sender_id row' = user \<Longrightarrow>
           \<not> may_create_message d (Some user) row'"
    by (simp add: may_create_message_def is_participant_def)
  with b show "fst (handleSendMessage d p user upload new_id now) = d"
    using handleSendMessage_rejected[of p "chat_id row" user d upload new_id now] by blast
next
  assume a: "auth = Some (sender_id row) \<and>
    (\<exists>c\<in>set (chats d). cid c = chat_id row \<and>
       (auth = Some (user1_id c) \<or> auth = Some (user2_id c))) \<and>
    mid row \<notin> mid ` set (messages d) \<and> sender_id row \<in> set (profiles d)"
  then have may: "may_create_message (d\<lparr>follows := fs\<rparr>) auth row"
    by (auto simp: may_create_message_def is_participant_def)
  from a have "mid row \<notin> mid ` set (messages d)"
    by simp
  then have fresh: "\<not> (\<exists>m\<in>set (messages d). mid m = mid row)"
    by (metis imageI)
  from a may fresh show "insert_message (d\<lparr>follows := fs\<rparr>) auth row =
        Inr (d\<lparr>follows := fs, messages := messages d @ [row]\<rparr>)"
    by (simp add: insert_message_def)
qed

theorem insert_message_gate_witness:
  "insert_message db_accepted None hello = Inl RlsViolation \<and>
   \<not> (\<exists>c\<in>set (chats db_accepted). cid c = chat_id (hello\<lparr>sender_id := 3\<rparr>) \<and>
         (Some 3 = Some (user1_id c) \<or> Some 3 = Some (user2_id c))) \<and>
   insert_message db_accepted (Some 3) (hello\<lparr>sender_id := 3\<rparr>) = Inl RlsViolation \<and>
   fst (handleSendMessage db_accepted (chat_page_init\<lparr>chatId := Some 10, newMessage := [104]\<rparr>)
          3 (Inl StorageError) 7 3) = db_accepted \<and>
   (\<exists>c\<in>set (chats db_accepted). cid c = chat_id hello \<and>
         (Some 1 = Some (user1_id c) \<or> Some 1 = Some (user2_id c))) \<and>
   mid hello \<notin> mid ` set (messages db_accepted) \<and> sender_id hello \<in> set (profiles db_accepted) \<and>
   insert_message (db_accepted\<lparr>follows := []\<rparr>) (Some 1) hello =
     Inr (db_accepted\<lparr>follows := [], messages := [welcome_row, hello]\<rparr>)"
  using insert_message_gate[where auth = None and row = hello and d = db_accepted]
    insert_message_gate[where auth = "Some 3" and row = "hello\<lparr>sender_id := 3\<rparr>"
      and d = db_accepted and user = 3
      and p = "chat_page_init\<lparr>chatId := Some 10, newMessage := [104]\<rparr>"
      and upload = "Inl StorageError" and new_id = 7 and now = 3]
    insert_message_gate[where auth = "Some 1" and row = hello and d = db_accepted and fs = "[]"]
  by (simp add: example_defs)

section \<open>The local message view\<close>

lemma distinct_map_insort_key:
  "distinct (map g (insort_key f x xs)) \<longleftrightarrow> g x \<notin> g ` set xs \<and> distinct (map g xs)"
  by (induction xs) (auto simp: set_insort_key)

lemma distinct_map_sort_key:
  "distinct (map g (sort_key f xs)) \<longleftrightarrow> distinct (map g xs)"
  by (induction xs) (auto simp: distinct_map_insort_key)

lemma select_messages_distinct:
  "distinct (map mid (messages d)) \<Longrightarrow> distinct (map mid (select_messages d auth c))"
  by (simp add: select_messages_def visible_messages_def distinct_map_sort_key
      distinct_map_filter)

text \<open>
  C5, as claimed, fails: an insert event that carries a message already in the view is
  appended a second time, and the view then holds its id twice.
\<close>

theorem on_message_insert_duplicates:
  "\<not> distinct (map mid (messages_state
        (on_message_insert (chat_page_init\<lparr>messages_state := [hello]\<rparr>) hello)))"
  by (simp add: on_message_insert_def)

text \<open>
  C5, amended. The insert callback appends the delivered row whatever the view holds, so
  the ids of the view stay distinct exactly when they were distinct and the delivered id
  was not among them; the bulk load replaces the view by rows of the table, whose ids are
  distinct when the table's are.
\<close>

theorem message_view_ids:
  "messages_state (on_message_insert p m) = messages_state p @ [m] \<and>
   (distinct (map mid (messages_state (on_message_insert p m))) \<longleftrightarrow>
      distinct (map mid (messages_state p)) \<and> mid m \<notin> mid ` set (messages_state p)) \<and>
   (distinct (map mid (messages d)) \<longrightarrow>
      distinct (map mid (messages_state (subscribeToMessages d (p\<lparr>chatId := Some c\<rparr>) user))))"
  by (auto simp: on_message_insert_def subscribeToMessages_def select_messages_distinct)

theorem message_view_ids_witness:
  "distinct (map mid (messages db_accepted)) \<and>
   messages_state (subscribeToMessages db_accepted (chat_page_init\<lparr>chatId := Some 10\<rparr>) 1) =
     [welcome_row] \<and>
   messages_state (on_message_insert (chat_page_init\<lparr>messages_state := [welcome_row]\<rparr>) hello) =
     [welcome_row, hello] \<and>
   distinct (map mid (messages_state
     (on_message_insert (chat_page_init\<lparr>messages_state := [welcome_row]\<rparr>) hello)))"
  using message_view_ids[where p = "chat_page_init\<lparr>messages_state := [welcome_row]\<rparr>"
      and m = hello and d = db_accepted and c = 10 and user = 1]
  by (simp add: example_defs subscribeToMessages_def select_messages_def visible_messages_def
      is_participant_def on_message_insert_def)

section \<open>Toggling a reaction\<close>

text \<open>
  A copy loaded by \<^verbatim>\<open>loadReactions\<close> agrees with the table on every message of the
  chat, and the INSERT callback keeps it so.
\<close>

lemma group_by_message:
  "foldl (\<lambda>acc r. acc(Some (message_id r) \<mapsto>
            (case acc (Some (message_id r)) of None \<Rightarrow> [] | Some rs \<Rightarrow> rs) @ [r]))
         acc0 data (Some m) =
   (if filter (\<lambda>r. message_id r = m) data = [] then acc0 (Some m)
    else Some ((case acc0 (Some m) of None \<Rightarrow> [] | Some rs \<Rightarrow> rs) @
               filter (\<lambda>r. message_id r = m) data))"
proof (induction data arbitrary: acc0)
  case Nil
  then show ?case by simp
next
  case (Cons r data)
  show ?case
    unfolding foldl_Cons Cons.IH
    by (cases "filter (\<lambda>r. message_id r = m) data = []") (auto split: option.splits)
qed

lemma loadReactions_in_sync:
  assumes chat: "chatId p = Some chat"
    and msg: "m \<in> set (messages d)" "mid m = i" "chat_id m = chat"
    and part: "c \<in> set (chats d)" "cid c = chat" "is_participant (Some user) c"
  shows "reactions_in_sync d (loadReactions d p user) i"
proof -
  let ?ids = "map mid (visible_messages d (Some user) chat)"
  let ?data = "filter (\<lambda>r. in_own_chat d (Some user) (message_id r) \<and> message_id r \<in> set ?ids)
                 (message_reactions d)"
  from msg part have vis: "m \<in> set (visible_messages d (Some user) chat)"
    by (auto simp: visible_messages_def)
  then have ids: "i \<in> set ?ids" "?ids \<noteq> []"
    using msg(2) by auto
  from msg part have own: "in_own_chat d (Some user) i"
    by (auto simp: in_own_chat_def)
  have same: "filter (\<lambda>r. message_id r = i) ?data =
              filter (\<lambda>r. message_id r = i) (message_reactions d)"
    unfolding filter_filter
    by (rule filter_cong[OF refl]) (use own ids(1) in auto)
  have "reactions (loadReactions d p user) (Some i) =
        (if filter (\<lambda>r. message_id r = i) ?data = [] then None
         else Some (filter (\<lambda>r. message_id r = i) ?data))"
    using chat ids(2) by (simp add: loadReactions_def Let_def group_by_message)
  then show ?thesis
    unfolding reactions_in_sync_def reactions_of_def same
    by simp
qed

lemma on_reaction_insert_in_sync:
  assumes "reactions_in_sync d p i"
  shows "reactions_in_sync (d\<lparr>message_reactions := message_reactions d @ [r]\<rparr>)
           (on_reaction_insert p r) i"
  using assms
  by (simp add: reactions_in_sync_def reactions_of_def on_reaction_insert_def)

text \<open>
  The DELETE callback, given an event that carries the key only, writes under the key
  \<^verbatim>\<open>"undefined"\<close> and leaves the copy of every message as it was; after a removal the
  copy still holds the removed reaction. The handler itself never changes the copy.
\<close>

lemma on_reaction_delete_key_only:
  "reactions_of (on_reaction_delete p (delete_event r)) i = reactions_of p i"
  by (simp add: reactions_of_def on_reaction_delete_def delete_event_def)

lemma stale_after_removal:
  assumes "reactions_in_sync d p (message_id r)" and "r \<in> set (message_reactions d)"
  shows "\<not> reactions_in_sync
             (d\<lparr>message_reactions := filter (\<lambda>x. x \<noteq> r) (message_reactions d)\<rparr>)
             (on_reaction_delete p (delete_event r)) (message_id r)"
proof
  assume "reactions_in_sync
             (d\<lparr>message_reactions := filter (\<lambda>x. x \<noteq> r) (message_reactions d)\<rparr>)
             (on_reaction_delete p (delete_event r)) (message_id r)"
  then have "reactions_of p (message_id r) =
      filter (\<lambda>x. message_id x = message_id r) (filter (\<lambda>x. x \<noteq> r) (message_reactions d))"
    by (simp add: reactions_in_sync_def on_reaction_delete_key_only)
  moreover from assms have "r \<in> set (reactions_of p (message_id r))"
    by (simp add: reactions_in_sync_def)
  ultimately show False
    by simp
qed

lemma handleReaction_keeps_copy:
  "reactions (snd (handleReaction d p user m e n)) = reactions p"
  by (simp add: handleReaction_def split: option.splits sum.splits)

lemma reactions_handleReaction_frame:
  assumes "handleReaction d p user m e n = (d', q)"
  shows "messages d' = messages d \<and> chats d' = chats d \<and> profiles d' = profiles d"
  using assms
  by (auto simp: handleReaction_def delete_reaction_def insert_reaction_def
      split: option.splits sum.splits if_splits)

lemma toggle_absent:
  assumes inv: "reactions_inv d"
    and own: "in_own_chat d (Some u) m"
    and prof: "u \<in> set (profiles d)"
    and sync: "reactions_in_sync d p m"
    and fresh: "n \<notin> rid ` set (message_reactions d)"
    and absent: "(m, u, e) \<notin> set (reaction_triples d)"
  shows "fst (handleReaction d p (Some u) m e n) =
         d\<lparr>message_reactions := message_reactions d @
              [\<lparr>rid = n, message_id = m, user_id = u, emoji = e\<rparr>]\<rparr>"
proof -
  let ?row = "\<lparr>rid = n, message_id = m, user_id = u, emoji = e\<rparr>"
  from absent have none: "\<not> (\<exists>r\<in>set (message_reactions d).
      message_id r = m \<and> user_id r = u \<and> emoji r = e)"
    by (force simp: reaction_triples_def)
  then have find: "find (\<lambda>r. user_id r = u \<and> emoji r = e) (reactions_of p m) = None"
    using sync by (auto simp: reactions_in_sync_def find_None_iff)
  from fresh have norid: "\<not> (\<exists>r\<in>set (message_reactions d). rid r = n)"
    by (metis imageI)
  have "insert_reaction d (Some u) ?row = Inr (d\<lparr>message_reactions := message_reactions d @ [?row]\<rparr>)"
    using own prof none norid by (simp add: insert_reaction_def)
  with find show ?thesis
    by (simp add: handleReaction_def)
qed

lemma toggle_present:
  assumes inv: "reactions_inv d"
    and own: "in_own_chat d (Some u) m"
    and sync: "reactions_in_sync d p m"
    and present: "(m, u, e) \<in> set (reaction_triples d)"
  shows "\<exists>r. r \<in> set (message_reactions d) \<and> message_id r = m \<and> user_id r = u \<and>
             emoji r = e \<and>
             fst (handleReaction d p (Some u) m e n) =
               d\<lparr>message_reactions := filter (\<lambda>x. x \<noteq> r) (message_reactions d)\<rparr>"
proof -
  from sync have ro: "reactions_of p m = filter (\<lambda>r. message_id r = m) (message_reactions d)"
    by (simp add: reactions_in_sync_def)
  from present obtain r0 where "r0 \<in> set (message_reactions d)" "message_id r0 = m"
      "user_id r0 = u" "emoji r0 = e"
    by (auto simp: reaction_triples_def)
  then have "\<exists>x. x \<in> set (reactions_of p m) \<and> user_id x = u \<and> emoji x = e"
    unfolding ro by auto
  then have "find (\<lambda>r. user_id r = u \<and> emoji r = e) (reactions_of p m) \<noteq> None"
    by (simp add: find_None_iff)
  then obtain r where find: "find (\<lambda>r. user_id r = u \<and> emoji r = e) (reactions_of p m) = Some r"
    by blast
  from find_SomeD[OF find]
  have r: "r \<in> set (message_reactions d)" "message_id r = m" "user_id r = u" "emoji r = e"
    unfolding ro by simp_all
  from inv have inj: "inj_on rid (set (message_reactions d))"
    by (simp add: reactions_inv_def distinct_map)
  have filt: "filter (\<lambda>x. \<not> (rid x = rid r \<and> Some u = Some (user_id x) \<and>
                        in_own_chat d (Some u) (message_id x))) (message_reactions d) =
        filter (\<lambda>x. x \<noteq> r) (message_reactions d)"
  proof (rule filter_cong[OF refl])
    fix x assume x: "x \<in> set (message_reactions d)"
    show "(\<not> (rid x = rid r \<and> Some u = Some (user_id x) \<and>
                        in_own_chat d (Some u) (message_id x))) = (x \<noteq> r)"
    proof (cases "x = r")
      case True
      with r own show ?thesis by simp
    next
      case False
      with inj x r(1) have "rid x \<noteq> rid r"
        by (meson inj_onD)
      with False show ?thesis by simp
    qed
  qed
  have del: "delete_reaction d (Some u) (rid r) =
             d\<lparr>message_reactions := filter (\<lambda>x. x \<noteq> r) (message_reactions d)\<rparr>"
    unfolding delete_reaction_def filt ..
  have "fst (handleReaction d p (Some u) m e n) = delete_reaction d (Some u) (rid r)"
    by (simp add: handleReaction_def find)
  then have "fst (handleReaction d p (Some u) m e n) =
             d\<lparr>message_reactions := filter (\<lambda>x. x \<noteq> r) (message_reactions d)\<rparr>"
    by (simp only: del)
  with r show ?thesis
    by blast
qed

lemma toggle_step:
  assumes inv: "reactions_inv d"
    and own: "in_own_chat d (Some u) m"
    and prof: "u \<in> set (profiles d)"
    and sync: "reactions_in_sync d p m"
    and fresh: "n \<notin> rid ` set (message_reactions d)"
  shows "set (reaction_triples (fst (handleReaction d p (Some u) m e n))) =
           (if (m, u, e) \<in> set (reaction_triples d)
            then set (reaction_triples d) - {(m, u, e)}
            else insert (m, u, e) (set (reaction_triples d))) \<and>
         reactions_inv (fst (handleReaction d p (Some u) m e n))"
proof (cases "(m, u, e) \<in> set (reaction_triples d)")
  case False
  from fresh have "n \<notin> set (map rid (message_reactions d))" by simp
  with False inv show ?thesis
    unfolding toggle_absent[OF inv own prof sync fresh False]
    by (simp add: reactions_inv_def reaction_triples_def)
next
  case True
  let ?t = "\<lambda>r. (message_id r, user_id r, emoji r)"
  from toggle_present[OF inv own sync True, of n] obtain r where
    r: "r \<in> set (message_reactions d)" "?t r = (m, u, e)" and
    res: "fst (handleReaction d p (Some u) m e n) =
            d\<lparr>message_reactions := filter (\<lambda>x. x \<noteq> r) (message_reactions d)\<rparr>"
    by auto
  from inv have inj: "inj_on ?t (set (message_reactions d))"
    by (simp add: reactions_inv_def reaction_triples_def distinct_map)
  have "?t ` {x \<in> set (message_reactions d). x \<noteq> r} = ?t ` set (message_reactions d) - {?t r}"
    using inj r(1) by (auto simp: inj_on_def)
  with True r(2) inv show ?thesis
    unfolding res
    by (simp add: reactions_inv_def reaction_triples_def distinct_map_filter)
qed

text \<open>
  Toggling, the INSERT callback on the page the handler returned, and toggling again: a
  fact that was absent is absent again, and the table is as it was.
\<close>

lemma toggle_event_toggle:
  assumes inv: "reactions_inv d"
    and own: "in_own_chat d (Some u) m"
    and prof: "u \<in> set (profiles d)"
    and sync: "reactions_in_sync d p m"
    and fresh1: "n1 \<notin> rid ` set (message_reactions d)"
    and absent: "(m, u, e) \<notin> set (reaction_triples d)"
    and step1: "handleReaction d p (Some u) m e n1 = (d1, q)"
    and fresh2: "n2 \<notin> rid ` set (message_reactions d1)"
  shows "d1 = d\<lparr>message_reactions := message_reactions d @
                 [\<lparr>rid = n1, message_id = m, user_id = u, emoji = e\<rparr>]\<rparr> \<and>
         fst (handleReaction d1
                (on_reaction_insert q \<lparr>rid = n1, message_id = m, user_id = u, emoji = e\<rparr>)
                (Some u) m e n2) = d"
proof -
  let ?row = "\<lparr>rid = n1, message_id = m, user_id = u, emoji = e\<rparr>"
  have d1: "d1 = d\<lparr>message_reactions := message_reactions d @ [?row]\<rparr>"
    using toggle_absent[OF inv own prof sync fresh1 absent] by (simp add: step1)
  have "reactions q = reactions p"
    using handleReaction_keeps_copy[of d p "Some u" m e n1] by (simp add: step1)
  with sync have "reactions_in_sync d q m"
    by (simp add: reactions_in_sync_def reactions_of_def)
  then have sync1: "reactions_in_sync d1 (on_reaction_insert q ?row) m"
    unfolding d1 by (rule on_reaction_insert_in_sync)
  from fresh1 have "n1 \<notin> set (map rid (message_reactions d))" by simp
  with inv absent have inv1: "reactions_inv d1"
    unfolding d1 by (simp add: reactions_inv_def reaction_triples_def)
  from own have own1: "in_own_chat d1 (Some u) m"
    unfolding d1 by (simp add: in_own_chat_def)
  have present: "(m, u, e) \<in> set (reaction_triples d1)"
    unfolding d1 by (simp add: reaction_triples_def)
  from toggle_present[OF inv1 own1 sync1 present, of n2] obtain r where
    r: "r \<in> set (message_reactions d1)" "message_id r = m" "user_id r = u" "emoji r = e"
    and res: "fst (handleReaction d1 (on_reaction_insert q ?row) (Some u) m e n2) =
              d1\<lparr>message_reactions := filter (\<lambda>x. x \<noteq> r) (message_reactions d1)\<rparr>"
    by blast
  from r absent have rrow: "r = ?row"
    unfolding d1 by (auto simp: reaction_triples_def)
  from fresh1 have "?row \<notin> set (message_reactions d)"
    by force
  then have filt: "filter (\<lambda>x. x \<noteq> ?row) (message_reactions d) = message_reactions d"
    by (auto simp: filter_id_conv)
  have restored: "d1\<lparr>message_reactions := filter (\<lambda>x. x \<noteq> ?row) (message_reactions d1)\<rparr> = d"
    by (simp add: d1 filt)
  from res have "fst (handleReaction d1 (on_reaction_insert q ?row) (Some u) m e n2) =
      d1\<lparr>message_reactions := filter (\<lambda>x. x \<noteq> ?row) (message_reactions d1)\<rparr>"
    by (simp only: rrow)
  then have "fst (handleReaction d1 (on_reaction_insert q ?row) (Some u) m e n2) = d"
    by (simp only: restored)
  with d1 show ?thesis by simp
qed

text \<open>
  After a removal and its DELETE event the copy still holds the removed reaction, and
  the next toggle deletes by its id again: nothing is added.
\<close>

lemma third_toggle_does_nothing:
  "handleReaction db_reacted
     (chat_page_init\<lparr>chatId := Some 10,
        reactions := [Some 20 \<mapsto> [\<lparr>rid = 30, message_id = 20, user_id = 1, emoji = heart\<rparr>]]\<rparr>)
     (Some 1) 20 heart 31 =
     (db_accepted,
      chat_page_init\<lparr>chatId := Some 10,
        reactions := [Some 20 \<mapsto> [\<lparr>rid = 30, message_id = 20, user_id = 1, emoji = heart\<rparr>]]\<rparr>) \<and>
   reactions_of
     (on_reaction_delete
        (chat_page_init\<lparr>chatId := Some 10,
           reactions := [Some 20 \<mapsto> [\<lparr>rid = 30, message_id = 20, user_id = 1, emoji = heart\<rparr>]]\<rparr>)
        (delete_event \<lparr>rid = 30, message_id = 20, user_id = 1, emoji = heart\<rparr>)) 20 =
     [\<lparr>rid = 30, message_id = 20, user_id = 1, emoji = heart\<rparr>] \<and>
   fst (handleReaction db_accepted
     (on_reaction_delete
        (chat_page_init\<lparr>chatId := Some 10,
           reactions := [Some 20 \<mapsto> [\<lparr>rid = 30, message_id = 20, user_id = 1, emoji = heart\<rparr>]]\<rparr>)
        (delete_event \<lparr>rid = 30, message_id = 20, user_id = 1, emoji = heart\<rparr>))
     (Some 1) 20 heart 32) = db_accepted \<and>
   reaction_triples db_accepted = []"
  by (simp add: example_defs handleReaction_def reactions_of_def on_reaction_delete_def
      delete_event_def reaction_triples_def stmt_defs)

text \<open>
  C6, as claimed, fails. The handler does not touch the page's copy of the reactions, so
  a second toggle on the page the first one returned, with no event applied in between,
  finds no reaction in the copy although the fact is stored: it tries to add it again, is
  shown "Failed to add reaction", and the fact stays stored.
\<close>

theorem toggle_twice_same_page:
  "reaction_triples db_accepted = [] \<and>
   handleReaction db_accepted (chat_page_init\<lparr>chatId := Some 10\<rparr>) (Some 1) 20 heart 30 =
     (db_reacted, chat_page_init\<lparr>chatId := Some 10\<rparr>) \<and>
   handleReaction db_reacted (chat_page_init\<lparr>chatId := Some 10\<rparr>) (Some 1) 20 heart 31 =
     (db_reacted,
      chat_page_init\<lparr>chatId := Some 10,
                     chat_toasts := [toast_error ''Failed to add reaction'']\<rparr>) \<and>
   reaction_triples db_reacted = [(20, 1, heart)]"
  by (simp add: example_defs handleReaction_def reactions_of_def reaction_triples_def stmt_defs)

text \<open>
  C6, amended. Provided the page's copy of the reactions on the message agrees with the
  table before each toggle: toggling removes the (message, user, emoji) fact when it is
  stored and adds it otherwise, leaving every other fact alone; toggling twice restores
  the stored facts, so a fact that was absent is absent again; no fact is ever stored
  twice; and a second emoji of the same user on the same message is stored beside the
  first. When the fact was absent, the INSERT callback applied to the page the first
  toggle returned is enough for the second toggle to leave the table as it was.
\<close>

theorem reaction_toggle:
  assumes inv: "reactions_inv d"
    and own: "in_own_chat d (Some u) m"
    and prof: "u \<in> set (profiles d)"
    and sync1: "reactions_in_sync d p m"
    and fresh1: "n1 \<notin> rid ` set (message_reactions d)"
    and step1: "handleReaction d p (Some u) m e n1 = (d1, q)"
    and sync2: "reactions_in_sync d1 p1 m"
    and fresh2: "n2 \<notin> rid ` set (message_reactions d1)"
    and step2: "handleReaction d1 p1 (Some u) m e n2 = (d2, q2)"
  shows "((m, u, e) \<in> set (reaction_triples d) \<longrightarrow>
            set (reaction_triples d1) = set (reaction_triples d) - {(m, u, e)}) \<and>
         ((m, u, e) \<notin> set (reaction_triples d) \<longrightarrow>
            set (reaction_triples d1) = insert (m, u, e) (set (reaction_triples d))) \<and>
         set (reaction_triples d2) = set (reaction_triples d) \<and>
         ((m, u, e) \<notin> set (reaction_triples d) \<longrightarrow> (m, u, e) \<notin> set (reaction_triples d2)) \<and>
         distinct (reaction_triples d1) \<and> distinct (reaction_triples d2) \<and>
         (e' \<noteq> e \<and> (m, u, e') \<in> set (reaction_triples d) \<and>
          (m, u, e) \<notin> set (reaction_triples d) \<longrightarrow>
            (m, u, e) \<in> set (reaction_triples d1) \<and> (m, u, e') \<in> set (reaction_triples d1)) \<and>
         ((m, u, e) \<notin> set (reaction_triples d) \<longrightarrow>
            fst (handleReaction d1
                   (on_reaction_insert q \<lparr>rid = n1, message_id = m, user_id = u, emoji = e\<rparr>)
                   (Some u) m e n2) = d)"
proof -
  let ?x = "(m, u, e)"
  have f1: "fst (handleReaction d p (Some u) m e n1) = d1"
    by (simp add: step1)
  have f2: "fst (handleReaction d1 p1 (Some u) m e n2) = d2"
    by (simp add: step2)
  note s1 = toggle_step[OF inv own prof sync1 fresh1, of e, unfolded f1]
  from s1 have t1: "set (reaction_triples d1) =
      (if ?x \<in> set (reaction_triples d) then set (reaction_triples d) - {?x}
       else insert ?x (set (reaction_triples d)))"
    by (rule conjunct1)
  from s1 have inv1: "reactions_inv d1"
    by (rule conjunct2)
  from reactions_handleReaction_frame[OF step1]
  have fr: "messages d1 = messages d" "chats d1 = chats d" "profiles d1 = profiles d"
    by simp_all
  from own have own1: "in_own_chat d1 (Some u) m"
    by (simp add: in_own_chat_def fr)
  from prof have prof1: "u \<in> set (profiles d1)"
    by (simp add: fr)
  note s2 = toggle_step[OF inv1 own1 prof1 sync2 fresh2, of e, unfolded f2]
  from s2 have t2: "set (reaction_triples d2) =
      (if ?x \<in> set (reaction_triples d1) then set (reaction_triples d1) - {?x}
       else insert ?x (set (reaction_triples d1)))"
    by (rule conjunct1)
  from s2 have inv2: "reactions_inv d2"
    by (rule conjunct2)
  have dist: "distinct (reaction_triples d1)" "distinct (reaction_triples d2)"
    using inv1 inv2 by (simp_all add: reactions_inv_def)
  show ?thesis
  proof (cases "?x \<in> set (reaction_triples d)")
    case True
    have a: "set (reaction_triples d1) = set (reaction_triples d) - {?x}"
      by (simp add: t1 True)
    have b: "set (reaction_triples d2) = set (reaction_triples d)"
      using True by (simp add: t2 a insert_absorb)
    show ?thesis
      using True dist by (simp add: a b)
  next
    case False
    have a: "set (reaction_triples d1) = insert ?x (set (reaction_triples d))"
      by (simp add: t1 False)
    have b: "set (reaction_triples d2) = set (reaction_triples d)"
      using False by (simp add: t2 a)
    have live: "fst (handleReaction d1
                   (on_reaction_insert q \<lparr>rid = n1, message_id = m, user_id = u, emoji = e\<rparr>)
                   (Some u) m e n2) = d"
      using toggle_event_toggle[OF inv own prof sync1 fresh1 False step1 fresh2]
      by (rule conjunct2)
    show ?thesis
      using False dist by (simp add: a b live)
  qed
qed

theorem reaction_toggle_witness:
  "reactions_inv db_accepted \<and> in_own_chat db_accepted (Some 1) 20 \<and>
   1 \<in> set (profiles db_accepted) \<and>
   reactions_in_sync db_accepted chat_page_init 20 \<and>
   30 \<notin> rid ` set (message_reactions db_accepted) \<and>
   handleReaction db_accepted chat_page_init (Some 1) 20 heart 30 = (db_reacted, chat_page_init) \<and>
   reactions_in_sync db_reacted (loadReactions db_reacted (chat_page_init\<lparr>chatId := Some 10\<rparr>) 1) 20 \<and>
   31 \<notin> rid ` set (message_reactions db_reacted) \<and>
   handleReaction db_reacted (loadReactions db_reacted (chat_page_init\<lparr>chatId := Some 10\<rparr>) 1)
       (Some 1) 20 heart 31 =
     (db_accepted, loadReactions db_reacted (chat_page_init\<lparr>chatId := Some 10\<rparr>) 1) \<and>
   reaction_triples db_accepted = [] \<and>
   reaction_triples db_reacted = [(20, 1, heart)] \<and>
   fst (handleReaction db_reacted
          (on_reaction_insert chat_page_init
             \<lparr>rid = 30, message_id = 20, user_id = 1, emoji = heart\<rparr>)
          (Some 1) 20 heart 31) = db_accepted \<and>
   thumb \<noteq> heart \<and>
   handleReaction db_reacted (loadReactions db_reacted (chat_page_init\<lparr>chatId := Some 10\<rparr>) 1)
       (Some 1) 20 thumb 31 =
     (db_two_reactions, loadReactions db_reacted (chat_page_init\<lparr>chatId := Some 10\<rparr>) 1) \<and>
   reaction_triples db_two_reactions = [(20, 1, heart), (20, 1, thumb)] \<and>
   handleReaction db_two_reactions
       (loadReactions db_two_reactions (chat_page_init\<lparr>chatId := Some 10\<rparr>) 1)
       (Some 1) 20 thumb 32 =
     (db_reacted, loadReactions db_two_reactions (chat_page_init\<lparr>chatId := Some 10\<rparr>) 1)"
proof -
  let ?p1 = "loadReactions db_reacted (chat_page_init\<lparr>chatId := Some 10\<rparr>) 1"
  let ?p2 = "loadReactions db_two_reactions (chat_page_init\<lparr>chatId := Some 10\<rparr>) 1"
  have p1: "?p1 = chat_page_init\<lparr>chatId := Some 10,
      reactions := [Some 20 \<mapsto> [\<lparr>rid = 30, message_id = 20, user_id = 1, emoji = heart\<rparr>]]\<rparr>"
    by (simp add: loadReactions_def visible_messages_def example_defs stmt_defs)
  have p2: "?p2 = chat_page_init\<lparr>chatId := Some 10,
      reactions := [Some 20 \<mapsto> [\<lparr>rid = 30, message_id = 20, user_id = 1, emoji = heart\<rparr>,
                               \<lparr>rid = 31, message_id = 20, user_id = 1, emoji = thumb\<rparr>]]\<rparr>"
    by (simp add: loadReactions_def visible_messages_def example_defs stmt_defs)
  have h: "reactions_inv db_accepted" "in_own_chat db_accepted (Some 1) 20"
    "1 \<in> set (profiles db_accepted)"
    "reactions_in_sync db_accepted chat_page_init 20"
    "30 \<notin> rid ` set (message_reactions db_accepted)"
    "handleReaction db_accepted chat_page_init (Some 1) 20 heart 30 = (db_reacted, chat_page_init)"
    "reactions_in_sync db_reacted ?p1 20"
    "31 \<notin> rid ` set (message_reactions db_reacted)"
    "handleReaction db_reacted ?p1 (Some 1) 20 heart 31 = (db_accepted, ?p1)"
    unfolding p1
    by (simp_all add: example_defs reactions_inv_def reaction_triples_def reactions_in_sync_def
        reactions_of_def handleReaction_def stmt_defs)
  have k: "reactions_inv db_reacted" "in_own_chat db_reacted (Some 1) 20"
    "1 \<in> set (profiles db_reacted)"
    "reactions_in_sync db_reacted ?p1 20"
    "31 \<notin> rid ` set (message_reactions db_reacted)"
    "handleReaction db_reacted ?p1 (Some 1) 20 thumb 31 = (db_two_reactions, ?p1)"
    "reactions_in_sync db_two_reactions ?p2 20"
    "32 \<notin> rid ` set (message_reactions db_two_reactions)"
    "handleReaction db_two_reactions ?p2 (Some 1) 20 thumb 32 = (db_reacted, ?p2)"
    unfolding p1 p2
    by (simp_all add: example_defs reactions_inv_def reaction_triples_def reactions_in_sync_def
        reactions_of_def handleReaction_def stmt_defs)
  from reaction_toggle[OF h, of thumb] reaction_toggle[OF k, of heart] h k
  show ?thesis
    by (simp add: example_defs reaction_triples_def)
qed

section \<open>The status of a follow edge\<close>

lemma follows_insert_chat: "insert_chat d auth row = Inr d' \<Longrightarrow> follows d' = follows d"
  by (auto simp: insert_chat_def split: if_splits)

lemma follows_insert_message: "insert_message d auth row = Inr d' \<Longrightarrow> follows d' = follows d"
  by (auto simp: insert_message_def split: if_splits)

lemma follows_insert_reaction: "insert_reaction d auth row = Inr d' \<Longrightarrow> follows d' = follows d"
  by (auto simp: insert_reaction_def split: if_splits)

lemma follows_handleAccept:
  "follows (fst (handleAccept d p user requestId followerId new_chat_id new_message_id now)) =
   follows (update_follow_status d (Some user) requestId Accepted)"
  by (auto simp: handleAccept_def Let_def split: sum.splits
      dest!: follows_insert_chat follows_insert_message)

lemma follows_handleReject:
  "follows (fst (handleReject d p user requestId)) =
   follows (update_follow_status d (Some user) requestId Rejected)"
  by (simp add: handleReject_def)

lemma follows_initializeChat:
  "follows (fst (initializeChat d p user userId new_id)) = follows d"
  by (auto simp: initializeChat_def initializeChat_create_def Let_def
      split: progress.splits sum.splits dest!: follows_insert_chat)

lemma follows_handleSendMessage:
  "follows (fst (handleSendMessage d p user upload new_id now)) = follows d"
  by (cases "selectedFile p"; cases upload)
     (auto simp: handleSendMessage_def Let_def split: option.splits sum.splits
        dest!: follows_insert_message)

lemma follows_handleReaction:
  "follows (fst (handleReaction d p user messageId e new_id)) = follows d"
  by (auto simp: handleReaction_def delete_reaction_def split: option.splits sum.splits
      dest!: follows_insert_reaction)

lemma find_fid_map:
  "(\<And>f. fid (g f) = fid f) \<Longrightarrow>
   find (\<lambda>f. fid f = i) (map g fs) = map_option g (find (\<lambda>f. fid f = i) fs)"
  by (induction fs) auto

lemma follow_by_id_update:
  "follow_by_id (update_follow_status d auth requestId st) i =
   map_option (\<lambda>f. if fid f = requestId \<and> auth = Some (following_id f)
                     then f\<lparr>status := st\<rparr> else f) (follow_by_id d i)"
  by (simp add: follow_by_id_def update_follow_status_def find_fid_map)

lemma find_append_Some: "find P xs = Some x \<Longrightarrow> find P (xs @ ys) = Some x"
  by (induction xs) (auto split: if_splits)

lemma follow_by_id_handleFollow:
  "follow_by_id d i = Some f \<Longrightarrow>
   follow_by_id (fst (handleFollow d p user profileId new_id)) i = Some f"
  by (auto simp: handleFollow_def insert_follow_def follow_by_id_def find_append_Some
      split: sum.splits if_splits)

lemma status_of_step:
  assumes "status_of d i = Some s"
  shows "status_of (exec_op d op) i = Some s \<or> status_of (exec_op d op) i = Some Accepted \<or>
         status_of (exec_op d op) i = Some Rejected"
proof -
  from assms obtain f where f: "follow_by_id d i = Some f" and s: "status f = s"
    by (auto simp: status_of_def)
  have upd: "\<And>auth r st. st \<noteq> Pending \<Longrightarrow>
      status_of (update_follow_status d auth r st) i = Some s \<or>
      status_of (update_follow_status d auth r st) i = Some st"
    using f s by (simp add: status_of_def follow_by_id_update)
  have same: "\<And>d'. follows d' = follows d \<Longrightarrow> status_of d' i = Some s"
    using assms by (simp add: status_of_def follow_by_id_def)
  have same2: "\<And>d' d''. follows d' = follows d'' \<Longrightarrow> status_of d' i = status_of d'' i"
    by (simp add: status_of_def follow_by_id_def)
  show ?thesis
  proof (cases op)
    case (Op_handleFollow p user profileId new_id)
    with follow_by_id_handleFollow[OF f] s show ?thesis by (simp add: status_of_def)
  next
    case (Op_handleAccept p user requestId followerId nc nm now)
    with upd[of Accepted "Some user" requestId] same2[OF follows_handleAccept]
    show ?thesis by auto
  next
    case (Op_handleReject p user requestId)
    with upd[of Rejected "Some user" requestId] same2[OF follows_handleReject]
    show ?thesis by auto
  next
    case (Op_initializeChat p user userId new_id)
    with same[OF follows_initializeChat] show ?thesis by simp
  next
    case (Op_handleSendMessage p user upload new_id now)
    with same[OF follows_handleSendMessage] show ?thesis by simp
  next
    case (Op_handleReaction p user messageId e new_id)
    with same[OF follows_handleReaction] show ?thesis by simp
  qed
qed

lemma status_of_run:
  "status_of d i = Some s \<Longrightarrow> s \<noteq> Pending \<Longrightarrow>
   status_of (run_ops d ops) i = Some Accepted \<or> status_of (run_ops d ops) i = Some Rejected"
proof (induction ops arbitrary: d s)
  case Nil
  then show ?case by (cases s) (simp_all add: run_ops_def)
next
  case (Cons op ops)
  from status_of_step[OF Cons.prems(1), of op] Cons.prems(2)
  obtain s' where "status_of (exec_op d op) i = Some s'" and "s' \<noteq> Pending"
    by auto
  from Cons.IH[OF this] show ?case by (simp add: run_ops_def)
qed

text \<open>
  The policy of the table alone would let the followee write any status, pending
  included; it is the pages that never send such an update.
\<close>

lemma followee_statement_back_to_pending:
  "status_of db_accepted 5 = Some Accepted \<and>
   status_of (exec_stmt db_accepted (UpdateFollowStatus (Some 2) 5 Pending)) 5 = Some Pending"
  by (simp add: status_of_def follow_by_id_def update_follow_status_def example_defs)

text \<open>
  C7. A pending edge becomes accepted when its followee accepts and rejected when its
  followee rejects; the same handlers called by anyone else leave its status as it is;
  and an edge that is accepted or rejected is, after any run of the pages' operations,
  still accepted or rejected, never pending again.
\<close>

theorem follow_status_transitions:
  "(follow_by_id d i = Some f \<and> status f = Pending \<longrightarrow>
      status_of (fst (handleAccept d p (following_id f) i (follower_id f) nc nm now)) i =
        Some Accepted \<and>
      status_of (fst (handleReject d p (following_id f) i)) i = Some Rejected) \<and>
   (follow_by_id d i = Some f \<and> user \<noteq> following_id f \<longrightarrow>
      status_of (fst (handleAccept d p user i follower nc nm now)) i = Some (status f) \<and>
      status_of (fst (handleReject d p user i)) i = Some (status f)) \<and>
   (status_of d i = Some s \<and> s \<noteq> Pending \<longrightarrow>
      status_of (run_ops d ops) i = Some Accepted \<or>
      status_of (run_ops d ops) i = Some Rejected)"
proof -
  have st: "\<And>d' d''. follows d' = follows d'' \<Longrightarrow> status_of d' i = status_of d'' i"
    by (simp add: status_of_def follow_by_id_def)
  have upd: "status_of (update_follow_status d auth i st) i =
        Some (if auth = Some (following_id f) then st else status f)"
    if fb: "follow_by_id d i = Some f" for auth st
  proof -
    from fb have "fid f = i"
      by (auto simp: follow_by_id_def dest: find_SomeD)
    with fb show ?thesis
      by (simp add: status_of_def follow_by_id_update)
  qed
  show ?thesis
    using status_of_run[of d i s ops]
    by (auto simp: st[OF follows_handleAccept] st[OF follows_handleReject] upd)
qed

theorem follow_status_transitions_witness:
  "follow_by_id db_pending 5 =
     Some \<lparr>fid = 5, follower_id = 1, following_id = 2, status = Pending\<rparr> \<and>
   status_of (fst (handleAccept db_pending requests_page_init 2 5 1 10 20 0)) 5 = Some Accepted \<and>
   status_of (fst (handleReject db_pending requests_page_init 2 5)) 5 = Some Rejected \<and>
   status_of (fst (handleAccept db_pending requests_page_init 1 5 1 10 20 0)) 5 = Some Pending \<and>
   status_of (fst (handleReject db_pending requests_page_init 1 5)) 5 = Some Pending \<and>
   status_of db_accepted 5 = Some Accepted \<and>
   status_of (run_ops db_accepted
      [Op_handleFollow discover_page_init 1 2 6, Op_handleReject requests_page_init 2 5]) 5 =
     Some Rejected"
  using follow_status_transitions[where d = db_pending and i = 5
      and f = "\<lparr>fid = 5, follower_id = 1, following_id = 2, status = Pending\<rparr>"
      and p = requests_page_init and nc = 10 and nm = 20 and now = 0 and user = 1
      and follower = 1]
    follow_status_transitions[where d = db_accepted and i = 5 and s = Accepted
      and ops = "[Op_handleFollow discover_page_init 1 2 6,
                  Op_handleReject requests_page_init 2 5]"]
  by (simp add: example_defs follow_by_id_def status_of_def run_ops_def handleFollow_def
      handleReject_def stmt_defs)

section \<open>Follow requests\<close>

text \<open>
  C8. A follow request fails, with the database unchanged, when an edge from the user to
  the profile exists, whatever its status; when none exists (and both profiles exist and
  the new id is unused) it adds exactly one edge, with status pending.
\<close>

theorem handleFollow_guard:
  "(f \<in> set (follows d) \<and> follower_id f = user \<and> following_id f = profileId \<longrightarrow>
      handleFollow d p user profileId new_id =
        (d, p\<lparr>discover_toasts := discover_toasts p @
                 [toast_error ''Failed to send follow request'']\<rparr>)) \<and>
   (edges_from_to d user profileId = [] \<and> user \<in> set (profiles d) \<and>
    profileId \<in> set (profiles d) \<and> new_id \<notin> fid ` set (follows d) \<longrightarrow>
      handleFollow d p user profileId new_id =
        (d\<lparr>follows := follows d @
              [\<lparr>fid = new_id, follower_id = user, following_id = profileId, status = Pending\<rparr>]\<rparr>,
         p\<lparr>followStatus := (followStatus p)(profileId \<mapsto> Pending),
           discover_toasts := discover_toasts p @ [toast_success ''Follow request sent!'']\<rparr>))"
proof (intro conjI impI)
  assume "f \<in> set (follows d) \<and> follower_id f = user \<and> following_id f = profileId"
  then have "insert_follow d (Some user)
      \<lparr>fid = new_id, follower_id = user, following_id = profileId, status = Pending\<rparr> = Inl UniqueViolation"
    by (auto simp: insert_follow_def)
  then show "handleFollow d p user profileId new_id =
        (d, p\<lparr>discover_toasts := discover_toasts p @
                 [toast_error ''Failed to send follow request'']\<rparr>)"
    by (simp add: handleFollow_def)
next
  assume a: "edges_from_to d user profileId = [] \<and> user \<in> set (profiles d) \<and>
    profileId \<in> set (profiles d) \<and> new_id \<notin> fid ` set (follows d)"
  then have "\<not> (\<exists>f\<in>set (follows d). follower_id f = user \<and> following_id f = profileId)"
    by (auto simp: edges_from_to_def filter_empty_conv)
  with a have "insert_follow d (Some user)
      \<lparr>fid = new_id, follower_id = user, following_id = profileId, status = Pending\<rparr> =
      Inr (d\<lparr>follows := follows d @
              [\<lparr>fid = new_id, follower_id = user, following_id = profileId, status = Pending\<rparr>]\<rparr>)"
    by (auto simp: insert_follow_def)
  then show "handleFollow d p user profileId new_id =
        (d\<lparr>follows := follows d @
              [\<lparr>fid = new_id, follower_id = user, following_id = profileId, status = Pending\<rparr>]\<rparr>,
         p\<lparr>followStatus := (followStatus p)(profileId \<mapsto> Pending),
           discover_toasts := discover_toasts p @ [toast_success ''Follow request sent!'']\<rparr>)"
    by (simp add: handleFollow_def)
qed

theorem handleFollow_guard_witness:
  "(\<lparr>fid = 5, follower_id = 1, following_id = 2, status = Rejected\<rparr> \<in> set (follows db_rejected) \<and>
    handleFollow db_rejected discover_page_init 1 2 6 =
      (db_rejected, discover_page_init\<lparr>discover_toasts :=
                       [toast_error ''Failed to send follow request'']\<rparr>)) \<and>
   (edges_from_to db_two_users 1 2 = [] \<and> 1 \<in> set (profiles db_two_users) \<and>
    2 \<in> set (profiles db_two_users) \<and> 5 \<notin> fid ` set (follows db_two_users) \<and>
    follows (fst (handleFollow db_two_users discover_page_init 1 2 5)) =
      [\<lparr>fid = 5, follower_id = 1, following_id = 2, status = Pending\<rparr>])"
  using handleFollow_guard[where f = "\<lparr>fid = 5, follower_id = 1, following_id = 2, status = Rejected\<rparr>"
      and d = db_rejected and user = 1 and profileId = 2 and p = discover_page_init and new_id = 6]
    handleFollow_guard[where d = db_two_users and user = 1 and profileId = 2
      and p = discover_page_init and new_id = 5]
  by (simp add: example_defs edges_from_to_def)

section \<open>Sending a message\<close>

text \<open>
  C9. With a blank text and no file the handler returns at once: no request is sent and
  nothing changes. A message stored for a file without caption has the file's name as its
  content, and, file names being non-empty, every message the handler stores has
  non-empty content.
\<close>

theorem handleSendMessage_content:
  "(trim (newMessage p) = [] \<and> selectedFile p = None \<longrightarrow>
      handleSendMessage d p user upload new_id now = (d, p, [])) \<and>
   (trim (newMessage p) = [] \<and> selectedFile p = Some f \<and>
    m \<in> set (messages (fst (handleSendMessage d p user upload new_id now))) \<and>
    m \<notin> set (messages d) \<longrightarrow> content m = file_name f) \<and>
   ((\<forall>f. selectedFile p = Some f \<longrightarrow> file_name f \<noteq> []) \<and>
    m \<in> set (messages (fst (handleSendMessage d p user upload new_id now))) \<and>
    m \<notin> set (messages d) \<longrightarrow> content m \<noteq> [])"
  by (auto simp: handleSendMessage_def insert_message_def Let_def
      split: option.splits sum.splits if_splits)

theorem handleSendMessage_content_witness:
  "(trim (newMessage (chat_page_init\<lparr>chatId := Some 10, newMessage := [32, 9, 32]\<rparr>)) = [] \<and>
    handleSendMessage db_accepted (chat_page_init\<lparr>chatId := Some 10, newMessage := [32, 9, 32]\<rparr>)
        1 (Inl StorageError) 21 4 =
      (db_accepted, chat_page_init\<lparr>chatId := Some 10, newMessage := [32, 9, 32]\<rparr>, [])) \<and>
   (messages (fst (handleSendMessage db_accepted
        (chat_page_init\<lparr>chatId := Some 10, newMessage := [32], selectedFile := Some png\<rparr>)
        1 (Inr [117]) 21 4)) =
      [welcome_row,
       \<lparr>mid = 21, chat_id = 10, sender_id = 1, content = file_name png,
        media_url = Some [117], created_at = 4\<rparr>] \<and>
    file_name png \<noteq> [])"
  using handleSendMessage_content[where
      p = "chat_page_init\<lparr>chatId := Some 10, newMessage := [32, 9, 32]\<rparr>" and d = db_accepted
      and user = 1 and upload = "Inl StorageError" and new_id = 21 and now = 4]
    handleSendMessage_content[where
      p = "chat_page_init\<lparr>chatId := Some 10, newMessage := [32], selectedFile := Some png\<rparr>"
      and f = png
      and m = "\<lparr>mid = 21, chat_id = 10, sender_id = 1, content = file_name png,
        media_url = Some [117], created_at = 4\<rparr>"
      and d = db_accepted and user = 1 and upload = "Inr [117]" and new_id = 21 and now = 4]
  by (simp add: example_defs handleSendMessage_def trim_def is_whitespace_def stmt_defs)

section \<open>The Message action of the Discover page\<close>

lemma foldl_upd_lookup:
  "foldl (\<lambda>m f. m(k f \<mapsto> v f)) m0 xs x =
     (case find (\<lambda>f. k f = x) (rev xs) of None \<Rightarrow> m0 x | Some f \<Rightarrow> Some (v f))"
  by (induction xs rule: rev_induct) auto

lemma own_requests_filter:
  "filter (\<lambda>f. (user = follower_id f \<or> user = following_id f) \<and> follower_id f = user) fs =
   filter (\<lambda>f. follower_id f = user) fs"
  by (rule filter_cong) auto

lemma canMessage_fetch:
  "canMessage (fetchFollowStatus d p user) pid \<longleftrightarrow>
     (\<exists>f. find (\<lambda>f. following_id f = pid) (rev (filter (\<lambda>f. follower_id f = user) (follows d))) = Some f
          \<and> status f = Accepted)"
  by (auto simp: canMessage_def fetchFollowStatus_def foldl_upd_lookup own_requests_filter
      split: option.splits)

lemma discover_enabled:
  assumes uniq: "distinct (map (\<lambda>f. (follower_id f, following_id f)) (follows d))"
    and f: "f \<in> set (follows d)" "follower_id f = user" "following_id f = profile_id"
      "status f = Accepted"
  shows "canMessage (fetchFollowStatus d p user) profile_id"
proof -
  let ?data = "rev (filter (\<lambda>f. follower_id f = user) (follows d))"
  from f have "\<exists>x. x \<in> set ?data \<and> following_id x = profile_id"
    by auto
  then have "find (\<lambda>f. following_id f = profile_id) ?data \<noteq> None"
    by (simp add: find_None_iff)
  then obtain g where g: "find (\<lambda>f. following_id f = profile_id) ?data = Some g"
    by blast
  from find_SomeD[OF g] have "g \<in> set (follows d)" "follower_id g = user"
      "following_id g = profile_id"
    by simp_all
  with uniq f have "g = f"
    by (auto simp: distinct_map inj_on_def)
  with g f(4) show ?thesis
    by (simp add: canMessage_fetch)
qed

text \<open>
  C10. After the follow statuses are fetched, the Message action for a profile is enabled
  only if an accepted edge from the user to that profile exists (and, the pairs of the
  follows table being unique, whenever one exists). With no edge from the user to the
  profile, an accepted edge from the profile to the user leaves the action disabled,
  although the chat page's connection check holds.
\<close>

theorem discover_message_gate:
  "(canMessage (fetchFollowStatus d p user) profile_id \<longrightarrow>
      (\<exists>f\<in>set (follows d).
         follower_id f = user \<and> following_id f = profile_id \<and> status f = Accepted)) \<and>
   (edges_from_to d user profile_id = [] \<and>
    (\<exists>f\<in>set (follows d).
       follower_id f = profile_id \<and> following_id f = user \<and> status f = Accepted) \<longrightarrow>
      \<not> canMessage (fetchFollowStatus d p user) profile_id \<and> isConnected d user profile_id) \<and>
   (distinct (map (\<lambda>f. (follower_id f, following_id f)) (follows d)) \<and>
    (\<exists>f\<in>set (follows d).
       follower_id f = user \<and> following_id f = profile_id \<and> status f = Accepted) \<longrightarrow>
      canMessage (fetchFollowStatus d p user) profile_id)"
proof (intro conjI impI)
  assume "canMessage (fetchFollowStatus d p user) profile_id"
  then obtain f where
    "find (\<lambda>f. following_id f = profile_id) (rev (filter (\<lambda>f. follower_id f = user) (follows d))) = Some f"
    and "status f = Accepted"
    by (auto simp: canMessage_fetch)
  then show "\<exists>f\<in>set (follows d).
         follower_id f = user \<and> following_id f = profile_id \<and> status f = Accepted"
    by (auto dest!: find_SomeD)
next
  assume a: "edges_from_to d user profile_id = [] \<and>
    (\<exists>f\<in>set (follows d).
       follower_id f = profile_id \<and> following_id f = user \<and> status f = Accepted)"
  then have "find (\<lambda>f. following_id f = profile_id)
                (rev (filter (\<lambda>f. follower_id f = user) (follows d))) = None"
    by (auto simp: edges_from_to_def filter_empty_conv find_None_iff)
  then show "\<not> canMessage (fetchFollowStatus d p user) profile_id"
    by (simp add: canMessage_fetch)
  from a show "isConnected d user profile_id"
    by (auto simp: isConnected_def select_accepted_follows_def filter_empty_conv)
next
  assume "distinct (map (\<lambda>f. (follower_id f, following_id f)) (follows d)) \<and>
    (\<exists>f\<in>set (follows d).
       follower_id f = user \<and> following_id f = profile_id \<and> status f = Accepted)"
  then show "canMessage (fetchFollowStatus d p user) profile_id"
    using discover_enabled[of d _ user profile_id p] by blast
qed

theorem discover_message_gate_witness:
  "distinct (map (\<lambda>f. (follower_id f, following_id f)) (follows db_accepted)) \<and>
   canMessage (fetchFollowStatus db_accepted discover_page_init 1) 2 \<and>
   \<lparr>fid = 5, follower_id = 1, following_id = 2, status = Accepted\<rparr> \<in> set (follows db_accepted) \<and>
   edges_from_to db_accepted 2 1 = [] \<and>
   \<not> canMessage (fetchFollowStatus db_accepted discover_page_init 2) 1 \<and>
   isConnected db_accepted 2 1"
  using discover_message_gate[where d = db_accepted and p = discover_page_init and user = 1
      and profile_id = 2]
    discover_message_gate[where d = db_accepted and p = discover_page_init and user = 2
      and profile_id = 1]
  by (simp add: example_defs edges_from_to_def canMessage_def fetchFollowStatus_def)

end
